theory Spec2Isabelle
  imports Main
begin

section \<open>Go strings: byte sequences, UTF-8, and the library functions the summarizer calls\<close>

text \<open>
  A Go \<^verbatim>\<open>string\<close> is a sequence of bytes; it is modelled by \<^typ>\<open>string\<close>
  (a list of 8-bit characters).  \<open>byte c\<close> is the numeric value of one byte.
\<close>

abbreviation byte :: "char \<Rightarrow> nat" where
  "byte c \<equiv> of_char c"

subsection \<open>\<^verbatim>\<open>os.Getenv\<close>\<close>

text \<open>
  The process environment maps names to values.  \<^verbatim>\<open>os.Getenv\<close> returns the value of
  the variable, which is empty when the variable is not present.
\<close>

type_synonym environ = "string \<rightharpoonup> string"

definition Getenv :: "environ \<Rightarrow> string \<Rightarrow> string" where
  "Getenv env key = (case env key of None \<Rightarrow> [] | Some v \<Rightarrow> v)"

subsection \<open>\<^verbatim>\<open>strings.Join\<close>\<close>

text \<open>
  \<^verbatim>\<open>strings.Join(elems, sep)\<close>: the empty string for no element, the element itself for
  one, and otherwise the elements in order with \<open>sep\<close> between each two.
\<close>

fun Join :: "string list \<Rightarrow> string \<Rightarrow> string" where
  "Join [] sep = []"
| "Join [e] sep = e"
| "Join (e # f # elems) sep = e @ sep @ Join (f # elems) sep"

subsection \<open>\<^verbatim>\<open>unicode/utf8\<close>\<close>

definition RuneError :: nat where
  "RuneError = 0xFFFD"

text \<open>
  \<^verbatim>\<open>utf8.DecodeRuneInString\<close>: the first rune of the string and its width in bytes.  An
  empty string gives \<open>(RuneError, 0)\<close>, an invalid or truncated encoding gives
  \<open>(RuneError, 1)\<close>.  The accepted ranges of the second byte are those of the library's
  \<^verbatim>\<open>first\<close> and \<^verbatim>\<open>acceptRanges\<close> tables (no overlong forms, no surrogates, nothing
  above U+10FFFF).
\<close>

fun DecodeRune :: "string \<Rightarrow> nat \<times> nat" where
  "DecodeRune [] = (RuneError, 0)"
| "DecodeRune (c0 # s) =
    (let s0 = byte c0 in
     if s0 < 0x80 then (s0, 1)
     else if s0 < 0xC2 \<or> 0xF4 < s0 then (RuneError, 1)
     else
       let sz = (if s0 < 0xE0 then 2 else if s0 < 0xF0 then 3 else (4::nat));
           lo = (if s0 = 0xE0 then 0xA0 else if s0 = 0xF0 then 0x90 else (0x80::nat));
           hi = (if s0 = 0xED then 0x9F else if s0 = 0xF4 then 0x8F else (0xBF::nat))
       in
         if Suc (length s) < sz then (RuneError, 1)
         else
           let s1 = byte (s ! 0) in
           if s1 < lo \<or> hi < s1 then (RuneError, 1)
           else if sz \<le> 2 then ((s0 mod 0x20) * 0x40 + s1 mod 0x40, 2)
           else
             let s2 = byte (s ! 1) in
             if s2 < 0x80 \<or> 0xBF < s2 then (RuneError, 1)
             else if sz \<le> 3 then
               ((s0 mod 0x10) * 0x1000 + (s1 mod 0x40) * 0x40 + s2 mod 0x40, 3)
             else
               let s3 = byte (s ! 2) in
               if s3 < 0x80 \<or> 0xBF < s3 then (RuneError, 1)
               else
                 ((s0 mod 8) * 0x40000 + (s1 mod 0x40) * 0x1000
                    + (s2 mod 0x40) * 0x40 + s3 mod 0x40, 4))"

text \<open>\<^verbatim>\<open>utf8.RuneStart\<close>: the byte is not a continuation byte.\<close>

definition RuneStart :: "char \<Rightarrow> bool" where
  "RuneStart c \<longleftrightarrow> \<not> (0x80 \<le> byte c \<and> byte c < 0xC0)"

text \<open>
  \<^verbatim>\<open>utf8.DecodeLastRuneInString\<close>: the last rune of the string and its width.  The
  library looks back over at most four bytes for the nearest byte that starts a rune,
  decodes forward from there, and answers \<open>(RuneError, 1)\<close> unless that rune ends
  exactly at the end of the string.
\<close>

definition lastRuneWindow :: "string \<Rightarrow> nat" where
  "lastRuneWindow s =
    (let n = length s; r = rev s in
     if 2 \<le> n \<and> RuneStart (r ! 1) then 2
     else if 3 \<le> n \<and> RuneStart (r ! 2) then 3
     else if 4 \<le> n \<and> RuneStart (r ! 3) then 4
     else min 4 n)"

definition DecodeLastRune :: "string \<Rightarrow> nat \<times> nat" where
  "DecodeLastRune s =
    (if s = [] then (RuneError, 0)
     else if byte (last s) < 0x80 then (byte (last s), 1)
     else
       let k = lastRuneWindow s;
           (r, size) = DecodeRune (drop (length s - k) s)
       in if size \<noteq> k then (RuneError, 1) else (r, size))"

text \<open>
  \<^verbatim>\<open>utf8.AppendRune\<close>: the UTF-8 encoding of a rune; a surrogate or a value above
  U+10FFFF is encoded as U+FFFD.
\<close>

definition EncodeRune :: "nat \<Rightarrow> string" where
  "EncodeRune r =
    (if r \<le> 0x7F then [char_of r]
     else if r \<le> 0x7FF then [char_of (0xC0 + r div 0x40), char_of (0x80 + r mod 0x40)]
     else if 0x10FFFF < r \<or> (0xD800 \<le> r \<and> r \<le> 0xDFFF) then
       [char_of (0xEF::nat), char_of (0xBF::nat), char_of (0xBD::nat)]
     else if r \<le> 0xFFFF then
       [char_of (0xE0 + r div 0x1000), char_of (0x80 + (r div 0x40) mod 0x40),
        char_of (0x80 + r mod 0x40)]
     else
       [char_of (0xF0 + r div 0x40000), char_of (0x80 + (r div 0x1000) mod 0x40),
        char_of (0x80 + (r div 0x40) mod 0x40), char_of (0x80 + r mod 0x40)])"

subsection \<open>\<^verbatim>\<open>unicode.IsSpace\<close> and \<^verbatim>\<open>strings.TrimSpace\<close>\<close>

text \<open>
  \<^verbatim>\<open>unicode.IsSpace\<close>: the runes with Unicode's White Space property.  In Latin-1 these
  are tab, line feed, vertical tab, form feed, carriage return, space, U+0085 and U+00A0.
\<close>

definition IsSpace :: "nat \<Rightarrow> bool" where
  "IsSpace r \<longleftrightarrow>
     (0x09 \<le> r \<and> r \<le> 0x0D) \<or> r = 0x20 \<or> r = 0x85 \<or> r = 0xA0 \<or> r = 0x1680
     \<or> (0x2000 \<le> r \<and> r \<le> 0x200A) \<or> r = 0x2028 \<or> r = 0x2029 \<or> r = 0x202F
     \<or> r = 0x205F \<or> r = 0x3000"

lemma DecodeRune_width: "s \<noteq> [] \<Longrightarrow> 0 < snd (DecodeRune s)"
  by (cases s) (simp_all add: Let_def)

lemma drop_DecodeRune_shorter: "s \<noteq> [] \<Longrightarrow> length (drop (snd (DecodeRune s)) s) < length s"
  using DecodeRune_width [of s] by simp

declare DecodeRune.simps [simp del]

lemma lastRuneWindow_pos: "s \<noteq> [] \<Longrightarrow> 0 < lastRuneWindow s"
  by (simp add: lastRuneWindow_def Let_def)

lemma DecodeLastRune_width: "s \<noteq> [] \<Longrightarrow> 0 < snd (DecodeLastRune s)"
  by (auto simp: DecodeLastRune_def Let_def lastRuneWindow_pos split: prod.splits)

text \<open>
  \<^verbatim>\<open>strings.TrimLeftFunc(s, unicode.IsSpace)\<close>: runes are decoded from the front and
  dropped while they are white space.
\<close>

function TrimLeftSpace :: "string \<Rightarrow> string" where
  "TrimLeftSpace s =
    (if s = [] then []
     else if IsSpace (fst (DecodeRune s)) then TrimLeftSpace (drop (snd (DecodeRune s)) s)
     else s)"
  by pat_completeness auto
termination
  by (relation "measure length") (auto simp: DecodeRune_width)

text \<open>
  \<^verbatim>\<open>strings.TrimRightFunc(s, unicode.IsSpace)\<close>: runes are decoded from the back and
  dropped while they are white space.
\<close>

function TrimRightSpace :: "string \<Rightarrow> string" where
  "TrimRightSpace s =
    (if s = [] then []
     else if IsSpace (fst (DecodeLastRune s))
       then TrimRightSpace (take (length s - snd (DecodeLastRune s)) s)
     else s)"
  by pat_completeness auto
termination
  by (relation "measure length") (auto simp: DecodeLastRune_width)

text \<open>
  \<^verbatim>\<open>strings.TrimSpace\<close>: all leading and trailing white space removed.  (The library
  has a fast path for ASCII and otherwise calls the two functions above; both give the
  same slice.)
\<close>

definition TrimSpace :: "string \<Rightarrow> string" where
  "TrimSpace s = TrimRightSpace (TrimLeftSpace s)"

declare TrimLeftSpace.simps [simp del]
declare TrimRightSpace.simps [simp del]

section \<open>UTF-8: what the decoder and \<open>TrimSpace\<close> guarantee\<close>

text \<open>
  The library functions above are modelled by the way they compute.  This section
  relates them: decoding and encoding are inverse to each other on valid runes, and
  \<open>TrimSpace\<close> removes white-space runes, and all of them, at both ends.
\<close>

lemma div_mod_digit:
  fixes x y n :: nat
  assumes "y < n"
  shows "(x * n + y) div n = x" and "(x * n + y) mod n = y"
  using assms by simp_all

lemma digits3:
  fixes x y z :: nat
  assumes "y < 0x40" "z < 0x40"
  shows "(x * 0x1000 + y * 0x40 + z) div 0x1000 = x"
    and "((x * 0x1000 + y * 0x40 + z) div 0x40) mod 0x40 = y"
    and "(x * 0x1000 + y * 0x40 + z) mod 0x40 = z"
proof -
  have e: "x * 0x1000 + y * 0x40 + z = (x * 0x40 + y) * 0x40 + z" by simp
  have d: "(x * 0x1000 + y * 0x40 + z) div 0x40 = x * 0x40 + y"
    unfolding e using assms(2) by (rule div_mod_digit(1))
  show "((x * 0x1000 + y * 0x40 + z) div 0x40) mod 0x40 = y"
    unfolding d using assms(1) by (rule div_mod_digit(2))
  show "(x * 0x1000 + y * 0x40 + z) mod 0x40 = z"
    unfolding e using assms(2) by (rule div_mod_digit(2))
  have "(x * 0x1000 + y * 0x40 + z) div 0x1000 = ((x * 0x1000 + y * 0x40 + z) div 0x40) div 0x40"
    by (simp add: div_mult2_eq)
  also have "\<dots> = x" unfolding d using assms(1) by (rule div_mod_digit(1))
  finally show "(x * 0x1000 + y * 0x40 + z) div 0x1000 = x" .
qed

lemma digits4:
  fixes x y z u :: nat
  assumes "y < 0x40" "z < 0x40" "u < 0x40"
  shows "(x * 0x40000 + y * 0x1000 + z * 0x40 + u) div 0x40000 = x"
    and "((x * 0x40000 + y * 0x1000 + z * 0x40 + u) div 0x1000) mod 0x40 = y"
    and "((x * 0x40000 + y * 0x1000 + z * 0x40 + u) div 0x40) mod 0x40 = z"
    and "(x * 0x40000 + y * 0x1000 + z * 0x40 + u) mod 0x40 = u"
proof -
  have e: "x * 0x40000 + y * 0x1000 + z * 0x40 + u = (x * 0x40 + y) * 0x1000 + z * 0x40 + u"
    by simp
  show "((x * 0x40000 + y * 0x1000 + z * 0x40 + u) div 0x40) mod 0x40 = z"
    unfolding e using assms(2,3) by (rule digits3(2))
  show "(x * 0x40000 + y * 0x1000 + z * 0x40 + u) mod 0x40 = u"
    unfolding e using assms(2,3) by (rule digits3(3))
  have d: "(x * 0x40000 + y * 0x1000 + z * 0x40 + u) div 0x1000 = x * 0x40 + y"
    unfolding e using assms(2,3) by (rule digits3(1))
  show "((x * 0x40000 + y * 0x1000 + z * 0x40 + u) div 0x1000) mod 0x40 = y"
    unfolding d using assms(1) by (rule div_mod_digit(2))
  have "(x * 0x40000 + y * 0x1000 + z * 0x40 + u) div 0x40000
      = ((x * 0x40000 + y * 0x1000 + z * 0x40 + u) div 0x1000) div 0x40"
    by (simp add: div_mult2_eq)
  also have "\<dots> = x" unfolding d using assms(1) by (rule div_mod_digit(1))
  finally show "(x * 0x40000 + y * 0x1000 + z * 0x40 + u) div 0x40000 = x" .
qed

lemma mod_offset:
  fixes a k n :: nat
  assumes "k * n \<le> a" "a < k * n + n"
  shows "a mod n = a - k * n"
proof -
  have "a = (a - k * n) + k * n" using assms by simp
  then have "a mod n = (a - k * n) mod n" by (metis mod_mult_self1)
  also have "\<dots> = a - k * n" using assms by simp
  finally show ?thesis .
qed

lemma lead2: fixes a :: nat shows "0xC0 \<le> a \<Longrightarrow> a < 0xE0 \<Longrightarrow> a mod 0x20 = a - 0xC0"
  using mod_offset [of 6 "0x20" a] by simp

lemma lead3: fixes a :: nat shows "0xE0 \<le> a \<Longrightarrow> a < 0xF0 \<Longrightarrow> a mod 0x10 = a - 0xE0"
  using mod_offset [of 14 "0x10" a] by simp

lemma lead4: fixes a :: nat shows "0xF0 \<le> a \<Longrightarrow> a < 0xF8 \<Longrightarrow> a mod 8 = a - 0xF0"
  using mod_offset [of 30 8 a] by simp

lemma cont: fixes b :: nat shows "0x80 \<le> b \<Longrightarrow> b \<le> 0xBF \<Longrightarrow> b mod 0x40 = b - 0x80"
  using mod_offset [of 2 "0x40" b] by simp

lemma EncodeRune_1: "r < 0x80 \<Longrightarrow> EncodeRune r = [char_of r]"
  by (simp add: EncodeRune_def)

lemma EncodeRune_2:
  assumes "2 \<le> x" "x < 0x20" "y < 0x40"
  shows "EncodeRune (x * 0x40 + y) = [char_of (0xC0 + x), char_of (0x80 + y)]"
proof -
  from assms have "\<not> x * 0x40 + y \<le> 0x7F" "x * 0x40 + y \<le> 0x7FF" by simp_all
  then show ?thesis
    by (simp only: EncodeRune_def if_True if_False div_mod_digit [OF assms(3)])
qed

lemma EncodeRune_3:
  assumes "x < 0x10" "y < 0x40" "z < 0x40" "x = 0 \<longrightarrow> 0x20 \<le> y" "x = 0xD \<longrightarrow> y < 0x20"
  shows "EncodeRune (x * 0x1000 + y * 0x40 + z) =
    [char_of (0xE0 + x), char_of (0x80 + y), char_of (0x80 + z)]"
proof -
  let ?r = "x * 0x1000 + y * 0x40 + z"
  from assms have 1: "\<not> ?r \<le> 0x7F" "\<not> ?r \<le> 0x7FF" by auto
  have 2: "\<not> (0x10FFFF < ?r \<or> (0xD800 \<le> ?r \<and> ?r \<le> 0xDFFF))"
  proof (cases "x = 0xD")
    case True
    with assms show ?thesis by simp
  next
    case False
    then have "x \<le> 0xC \<or> 0xE \<le> x" by arith
    with assms show ?thesis by auto
  qed
  from assms have 3: "?r \<le> 0xFFFF" by simp
  show ?thesis
    by (simp only: EncodeRune_def 1 2 3 if_True if_False digits3 [OF assms(2,3)])
qed

lemma EncodeRune_4:
  assumes "x < 5" "y < 0x40" "z < 0x40" "u < 0x40" "x = 0 \<longrightarrow> 0x10 \<le> y" "x = 4 \<longrightarrow> y < 0x10"
  shows "EncodeRune (x * 0x40000 + y * 0x1000 + z * 0x40 + u) =
    [char_of (0xF0 + x), char_of (0x80 + y), char_of (0x80 + z), char_of (0x80 + u)]"
proof -
  let ?r = "x * 0x40000 + y * 0x1000 + z * 0x40 + u"
  from assms have 1: "\<not> ?r \<le> 0x7F" "\<not> ?r \<le> 0x7FF" "\<not> ?r \<le> 0xFFFF" by auto
  from assms have 2: "\<not> (0x10FFFF < ?r \<or> (0xD800 \<le> ?r \<and> ?r \<le> 0xDFFF))" by auto
  show ?thesis
    by (simp only: EncodeRune_def 1 2 if_True if_False digits4 [OF assms(2,3,4)])
qed

lemma DecodeRune_1: "byte c < 0x80 \<Longrightarrow> DecodeRune (c # s) = (byte c, 1)"
  by (simp add: DecodeRune.simps)

lemma DecodeRune_bad_lead:
  "0x80 \<le> byte c \<Longrightarrow> byte c < 0xC2 \<or> 0xF4 < byte c \<Longrightarrow> DecodeRune (c # s) = (RuneError, 1)"
  by (auto simp: DecodeRune.simps)

lemma DecodeRune_2:
  assumes "0xC2 \<le> byte c" "byte c < 0xE0"
  shows "DecodeRune (c # s) =
    (if s = [] \<or> byte (s ! 0) < 0x80 \<or> 0xBF < byte (s ! 0) then (RuneError, 1)
     else ((byte c - 0xC0) * 0x40 + (byte (s ! 0) - 0x80), 2))"
  using assms by (cases s) (auto simp: DecodeRune.simps Let_def lead2 cont)

lemma DecodeRune_3:
  assumes "0xE0 \<le> byte c" "byte c < 0xF0"
  shows "DecodeRune (c # s) =
    (if length s < 2
        \<or> byte (s ! 0) < (if byte c = 0xE0 then 0xA0 else 0x80)
        \<or> (if byte c = 0xED then 0x9F else 0xBF) < byte (s ! 0)
        \<or> byte (s ! 1) < 0x80 \<or> 0xBF < byte (s ! 1) then (RuneError, 1)
     else ((byte c - 0xE0) * 0x1000 + (byte (s ! 0) - 0x80) * 0x40 + (byte (s ! 1) - 0x80), 3))"
  using assms by (auto simp: DecodeRune.simps Let_def lead3 cont)

lemma DecodeRune_4:
  assumes "0xF0 \<le> byte c" "byte c \<le> 0xF4"
  shows "DecodeRune (c # s) =
    (if length s < 3
        \<or> byte (s ! 0) < (if byte c = 0xF0 then 0x90 else 0x80)
        \<or> (if byte c = 0xF4 then 0x8F else 0xBF) < byte (s ! 0)
        \<or> byte (s ! 1) < 0x80 \<or> 0xBF < byte (s ! 1)
        \<or> byte (s ! 2) < 0x80 \<or> 0xBF < byte (s ! 2) then (RuneError, 1)
     else ((byte c - 0xF0) * 0x40000 + (byte (s ! 0) - 0x80) * 0x1000
             + (byte (s ! 1) - 0x80) * 0x40 + (byte (s ! 2) - 0x80), 4))"
  using assms by (auto simp: DecodeRune.simps Let_def lead4 cont)

lemma take2: "\<not> (s = [] \<or> P) \<Longrightarrow> take 2 (c # s) = [c, s ! 0]"
  by (cases s) simp_all

lemma take3: "\<not> (length s < 2 \<or> P) \<Longrightarrow> take 3 (c # s) = [c, s ! 0, s ! 1]"
  by (cases s; cases "tl s") auto

lemma take4: "\<not> (length s < 3 \<or> P) \<Longrightarrow> take 4 (c # s) = [c, s ! 0, s ! 1, s ! 2]"
  by (cases s; cases "tl s"; cases "tl (tl s)") auto

lemma char_of_offset: "k \<le> byte c \<Longrightarrow> char_of (k + (byte c - k)) = c"
  by simp

text \<open>
  Decoding, then encoding: when the first rune of a string is not \<open>RuneError\<close>, the
  bytes that \<open>DecodeRune\<close> consumed are the encoding of the rune it returned.
\<close>

lemma DecodeRune_EncodeRune:
  assumes "fst (DecodeRune s) \<noteq> RuneError"
  shows "take (snd (DecodeRune s)) s = EncodeRune (fst (DecodeRune s))"
    and "snd (DecodeRune s) \<le> length s"
proof -
  from assms obtain c t where s: "s = c # t"
    by (cases s) (simp_all add: DecodeRune.simps)
  consider
      (one) "byte c < 0x80"
    | (bad) "0x80 \<le> byte c" "byte c < 0xC2 \<or> 0xF4 < byte c"
    | (two) "0xC2 \<le> byte c" "byte c < 0xE0"
    | (three) "0xE0 \<le> byte c" "byte c < 0xF0"
    | (four) "0xF0 \<le> byte c" "byte c \<le> 0xF4"
    by linarith
  then have "take (snd (DecodeRune s)) s = EncodeRune (fst (DecodeRune s))
    \<and> snd (DecodeRune s) \<le> length s"
  proof cases
    case one
    then show ?thesis by (simp add: s DecodeRune_1 EncodeRune_1)
  next
    case bad
    with assms show ?thesis by (simp add: s DecodeRune_bad_lead)
  next
    case two
    let ?b = "byte (t ! 0)"
    from assms have ok: "\<not> (t = [] \<or> ?b < 0x80 \<or> 0xBF < ?b)"
      unfolding s DecodeRune_2 [OF two] by (auto split: if_splits)
    then have d: "DecodeRune (c # t) = ((byte c - 0xC0) * 0x40 + (?b - 0x80), 2)"
      unfolding DecodeRune_2 [OF two] by simp
    from two ok have "EncodeRune ((byte c - 0xC0) * 0x40 + (?b - 0x80)) =
        [char_of (0xC0 + (byte c - 0xC0)), char_of (0x80 + (?b - 0x80))]"
      by (intro EncodeRune_2) auto
    also from two ok have "\<dots> = [c, t ! 0]"
      by (simp only: char_of_offset) (simp add: char_of_offset)
    finally have enc: "EncodeRune (fst (DecodeRune (c # t))) = take 2 (c # t)"
      unfolding d fst_conv using ok by (simp only: take2 simp_thms)
    from ok have "t \<noteq> []" by blast
    then have "2 \<le> length (c # t)" by (cases t) simp_all
    with enc show ?thesis unfolding s d fst_conv snd_conv by simp
  next
    case three
    let ?b = "byte (t ! 0)" and ?d = "byte (t ! 1)"
    from assms have ok: "\<not> (length t < 2
        \<or> ?b < (if byte c = 0xE0 then 0xA0 else 0x80)
        \<or> (if byte c = 0xED then 0x9F else 0xBF) < ?b
        \<or> ?d < 0x80 \<or> 0xBF < ?d)"
      unfolding s DecodeRune_3 [OF three] by (auto split: if_splits)
    then have d: "DecodeRune (c # t) =
        ((byte c - 0xE0) * 0x1000 + (?b - 0x80) * 0x40 + (?d - 0x80), 3)"
      unfolding DecodeRune_3 [OF three] by simp
    from ok have b: "0x80 \<le> ?b" "?b \<le> 0xBF" "0x80 \<le> ?d" "?d \<le> 0xBF"
      by (auto split: if_splits)
    from three ok b have "EncodeRune ((byte c - 0xE0) * 0x1000 + (?b - 0x80) * 0x40 + (?d - 0x80)) =
        [char_of (0xE0 + (byte c - 0xE0)), char_of (0x80 + (?b - 0x80)), char_of (0x80 + (?d - 0x80))]"
      by (intro EncodeRune_3) (auto split: if_splits)
    also from three b have "\<dots> = [c, t ! 0, t ! 1]"
      by (simp add: char_of_offset)
    finally have enc: "EncodeRune (fst (DecodeRune (c # t))) = take 3 (c # t)"
      unfolding d fst_conv using ok by (simp only: take3 simp_thms)
    from ok have "\<not> length t < 2" by blast
    then have "3 \<le> length (c # t)" by simp
    with enc show ?thesis unfolding s d fst_conv snd_conv by simp
  next
    case four
    let ?b = "byte (t ! 0)" and ?d = "byte (t ! 1)" and ?e = "byte (t ! 2)"
    from assms have ok: "\<not> (length t < 3
        \<or> ?b < (if byte c = 0xF0 then 0x90 else 0x80)
        \<or> (if byte c = 0xF4 then 0x8F else 0xBF) < ?b
        \<or> ?d < 0x80 \<or> 0xBF < ?d \<or> ?e < 0x80 \<or> 0xBF < ?e)"
      unfolding s DecodeRune_4 [OF four] by (auto split: if_splits)
    then have d: "DecodeRune (c # t) =
        ((byte c - 0xF0) * 0x40000 + (?b - 0x80) * 0x1000 + (?d - 0x80) * 0x40 + (?e - 0x80), 4)"
      unfolding DecodeRune_4 [OF four] by simp
    from ok have b: "0x80 \<le> ?b" "?b \<le> 0xBF" "0x80 \<le> ?d" "?d \<le> 0xBF"
        "0x80 \<le> ?e" "?e \<le> 0xBF"
      by (auto split: if_splits)
    from four ok b have "EncodeRune
        ((byte c - 0xF0) * 0x40000 + (?b - 0x80) * 0x1000 + (?d - 0x80) * 0x40 + (?e - 0x80)) =
        [char_of (0xF0 + (byte c - 0xF0)), char_of (0x80 + (?b - 0x80)),
         char_of (0x80 + (?d - 0x80)), char_of (0x80 + (?e - 0x80))]"
      by (intro EncodeRune_4) (auto split: if_splits)
    also from four b have "\<dots> = [c, t ! 0, t ! 1, t ! 2]"
      by (simp add: char_of_offset)
    finally have enc: "EncodeRune (fst (DecodeRune (c # t))) = take 4 (c # t)"
      unfolding d fst_conv using ok by (simp only: take4 simp_thms)
    from ok have "\<not> length t < 3" by blast
    then have "4 \<le> length (c # t)" by simp
    with enc show ?thesis unfolding s d fst_conv snd_conv by simp
  qed
  then show "take (snd (DecodeRune s)) s = EncodeRune (fst (DecodeRune s))"
    and "snd (DecodeRune s) \<le> length s"
    by simp_all
qed

definition validRune :: "nat \<Rightarrow> bool" where
  "validRune r \<longleftrightarrow> r \<le> 0x10FFFF \<and> \<not> (0xD800 \<le> r \<and> r \<le> 0xDFFF)"

lemma byte_char_of: "n < 256 \<Longrightarrow> byte (char_of n) = n"
  by simp

lemma digits_of_2:
  fixes a :: nat
  shows "(a div 0x40) * (0x40 * k) + (a mod 0x40) * k = a * k"
proof -
  have "a * k = ((a div 0x40) * 0x40 + a mod 0x40) * k" by simp
  also have "\<dots> = (a div 0x40) * (0x40 * k) + (a mod 0x40) * k"
    by (simp only: add_mult_distrib mult.assoc)
  finally show ?thesis by (rule sym)
qed

lemma digits_of_3:
  fixes r :: nat
  shows "r = (r div 0x1000) * 0x1000 + ((r div 0x40) mod 0x40) * 0x40 + r mod 0x40"
proof -
  have "r div 0x1000 = (r div 0x40) div 0x40" by (simp add: div_mult2_eq)
  then have "(r div 0x1000) * 0x1000 + ((r div 0x40) mod 0x40) * 0x40 = (r div 0x40) * 0x40"
    using digits_of_2 [of "r div 0x40" "0x40"] by simp
  then show ?thesis by simp
qed

lemma digits_of_4:
  fixes r :: nat
  shows "r = (r div 0x40000) * 0x40000 + ((r div 0x1000) mod 0x40) * 0x1000
           + ((r div 0x40) mod 0x40) * 0x40 + r mod 0x40"
proof -
  have "r div 0x40000 = (r div 0x1000) div 0x40" by (simp add: div_mult2_eq)
  then have "(r div 0x40000) * 0x40000 + ((r div 0x1000) mod 0x40) * 0x1000
      = (r div 0x1000) * 0x1000"
    using digits_of_2 [of "r div 0x1000" "0x1000"] by simp
  then show ?thesis using digits_of_3 [of r] by simp
qed

text \<open>The encoding of a valid rune, by its length, with the bits of each byte.\<close>

lemma EncodeRune_bytes:
  assumes "validRune r"
  obtains
    (one) "r < 0x80" "EncodeRune r = [char_of r]"
  | (two) x y where "2 \<le> x" "x < 0x20" "y < 0x40" "r = x * 0x40 + y"
      "EncodeRune r = [char_of (0xC0 + x), char_of (0x80 + y)]"
  | (three) x y z where "x < 0x10" "y < 0x40" "z < 0x40" "x = 0 \<longrightarrow> 0x20 \<le> y"
      "x = 0xD \<longrightarrow> y < 0x20" "r = x * 0x1000 + y * 0x40 + z"
      "EncodeRune r = [char_of (0xE0 + x), char_of (0x80 + y), char_of (0x80 + z)]"
  | (four) x y z u where "x < 5" "y < 0x40" "z < 0x40" "u < 0x40" "x = 0 \<longrightarrow> 0x10 \<le> y"
      "x = 4 \<longrightarrow> y < 0x10" "r = x * 0x40000 + y * 0x1000 + z * 0x40 + u"
      "EncodeRune r =
        [char_of (0xF0 + x), char_of (0x80 + y), char_of (0x80 + z), char_of (0x80 + u)]"
proof -
  consider (a) "r < 0x80" | (b) "0x80 \<le> r" "r \<le> 0x7FF"
    | (c) "0x800 \<le> r" "r \<le> 0xFFFF" | (d) "0x10000 \<le> r"
    by linarith
  then show ?thesis
  proof cases
    case a
    then show ?thesis by (intro one) (simp_all add: EncodeRune_1)
  next
    case b
    define x y where "x = r div 0x40" and "y = r mod 0x40"
    have r: "r = x * 0x40 + y" and y: "y < 0x40" by (simp_all add: x_def y_def)
    from b have x: "2 \<le> x" "x < 0x20" by (simp_all add: x_def)
    have "EncodeRune r = [char_of (0xC0 + x), char_of (0x80 + y)]"
      unfolding r using x y by (rule EncodeRune_2)
    with x y r show ?thesis by (rule two)
  next
    case c
    define x y z where "x = r div 0x1000" and "y = (r div 0x40) mod 0x40" and "z = r mod 0x40"
    have r: "r = x * 0x1000 + y * 0x40 + z" and y: "y < 0x40" and z: "z < 0x40"
      using digits_of_3 [of r] by (simp_all add: x_def y_def z_def)
    from c have x: "x < 0x10" by (simp add: x_def)
    from c r y z have lo: "x = 0 \<longrightarrow> 0x20 \<le> y" by auto
    from assms c r y z have hi: "x = 0xD \<longrightarrow> y < 0x20" by (auto simp: validRune_def)
    have "EncodeRune r = [char_of (0xE0 + x), char_of (0x80 + y), char_of (0x80 + z)]"
      unfolding r using x y z lo hi by (rule EncodeRune_3)
    with x y z lo hi r show ?thesis by (rule three)
  next
    case d
    define x y z u where "x = r div 0x40000" and "y = (r div 0x1000) mod 0x40"
      and "z = (r div 0x40) mod 0x40" and "u = r mod 0x40"
    have r: "r = x * 0x40000 + y * 0x1000 + z * 0x40 + u"
      and y: "y < 0x40" and z: "z < 0x40" and u: "u < 0x40"
      using digits_of_4 [of r] by (simp_all add: x_def y_def z_def u_def)
    from assms have "r \<le> 0x10FFFF" by (simp add: validRune_def)
    then have x: "x < 5" by (simp add: x_def)
    from d r y z u have lo: "x = 0 \<longrightarrow> 0x10 \<le> y" by auto
    from assms r y z u have hi: "x = 4 \<longrightarrow> y < 0x10" by (auto simp: validRune_def)
    have "EncodeRune r =
        [char_of (0xF0 + x), char_of (0x80 + y), char_of (0x80 + z), char_of (0x80 + u)]"
      unfolding r using x y z u lo hi by (rule EncodeRune_4)
    with x y z u lo hi r show ?thesis by (rule four)
  qed
qed

text \<open>
  Encoding, then decoding: the encoding of a valid rune, whatever follows it, decodes to
  the rune and the length of the encoding.
\<close>

lemma EncodeRune_DecodeRune:
  assumes "validRune r"
  shows "DecodeRune (EncodeRune r @ t) = (r, length (EncodeRune r))"
  using assms
proof (cases rule: EncodeRune_bytes)
  case one
  then show ?thesis by (simp add: DecodeRune_1)
next
  case (two x y)
  then have "DecodeRune (char_of (0xC0 + x) # char_of (0x80 + y) # t) = (x * 0x40 + y, 2)"
    by (subst DecodeRune_2) (simp_all add: byte_char_of)
  with two show ?thesis by simp
next
  case (three x y z)
  then have "DecodeRune (char_of (0xE0 + x) # char_of (0x80 + y) # char_of (0x80 + z) # t)
      = (x * 0x1000 + y * 0x40 + z, 3)"
    by (subst DecodeRune_3) (auto simp: byte_char_of)
  with three show ?thesis by simp
next
  case (four x y z u)
  then have "DecodeRune (char_of (0xF0 + x) # char_of (0x80 + y) # char_of (0x80 + z)
          # char_of (0x80 + u) # t)
      = (x * 0x40000 + y * 0x1000 + z * 0x40 + u, 4)"
    by (subst DecodeRune_4) (auto simp: byte_char_of)
  with four show ?thesis by simp
qed

text \<open>And from the back, whatever precedes the encoding.\<close>

lemma EncodeRune_DecodeLastRune:
  assumes "validRune r"
  shows "DecodeLastRune (t @ EncodeRune r) = (r, length (EncodeRune r))"
  using assms
proof (cases rule: EncodeRune_bytes)
  case one
  then show ?thesis by (simp add: DecodeLastRune_def)
next
  case (two x y)
  let ?e = "[char_of (0xC0 + x), char_of (0x80 + y)]"
  from two have w: "lastRuneWindow (t @ ?e) = 2"
    by (simp add: lastRuneWindow_def RuneStart_def byte_char_of)
  from EncodeRune_DecodeRune [OF assms, of "[]"] two
  have "DecodeRune ?e = (r, 2)" by simp
  with two w show ?thesis by (simp add: DecodeLastRune_def byte_char_of)
next
  case (three x y z)
  let ?e = "[char_of (0xE0 + x), char_of (0x80 + y), char_of (0x80 + z)]"
  from three have w: "lastRuneWindow (t @ ?e) = 3"
    by (simp add: lastRuneWindow_def RuneStart_def byte_char_of)
  from EncodeRune_DecodeRune [OF assms, of "[]"] three
  have "DecodeRune ?e = (r, 3)" by simp
  with three w show ?thesis by (simp add: DecodeLastRune_def byte_char_of)
next
  case (four x y z u)
  let ?e = "[char_of (0xF0 + x), char_of (0x80 + y), char_of (0x80 + z), char_of (0x80 + u)]"
  from four have w: "lastRuneWindow (t @ ?e) = 4"
    by (simp add: lastRuneWindow_def RuneStart_def byte_char_of)
  from EncodeRune_DecodeRune [OF assms, of "[]"] four
  have "DecodeRune ?e = (r, 4)" by simp
  with four w show ?thesis by (simp add: DecodeLastRune_def byte_char_of)
qed

lemma EncodeRune_not_Nil: "EncodeRune r \<noteq> []"
  by (simp add: EncodeRune_def)

lemma lastRuneWindow_le: "lastRuneWindow s \<le> length s"
  by (simp add: lastRuneWindow_def Let_def)

text \<open>
  The same for the last rune: when it is not \<open>RuneError\<close>, the bytes that
  \<open>DecodeLastRune\<close> consumed are its encoding.
\<close>

lemma DecodeLastRune_EncodeRune:
  assumes "fst (DecodeLastRune s) \<noteq> RuneError"
  shows "drop (length s - snd (DecodeLastRune s)) s = EncodeRune (fst (DecodeLastRune s))"
    and "snd (DecodeLastRune s) \<le> length s"
proof -
  from assms have ne: "s \<noteq> []" by (auto simp: DecodeLastRune_def)
  have "drop (length s - snd (DecodeLastRune s)) s = EncodeRune (fst (DecodeLastRune s))
    \<and> snd (DecodeLastRune s) \<le> length s"
  proof (cases "byte (last s) < 0x80")
    case True
    with ne have d: "DecodeLastRune s = (byte (last s), 1)"
      by (simp add: DecodeLastRune_def)
    from ne have "drop (length s - 1) s = drop (length (butlast s)) (butlast s @ [last s])"
      by simp
    then have "drop (length s - 1) s = [last s]"
      by (simp only: drop_all append_Nil order_refl drop_append)  simp
    moreover from True have "EncodeRune (byte (last s)) = [last s]"
      by (simp add: EncodeRune_1)
    moreover from ne have "1 \<le> length s" by (cases s) simp_all
    ultimately show ?thesis unfolding d fst_conv snd_conv by simp
  next
    case False
    let ?k = "lastRuneWindow s"
    let ?u = "drop (length s - ?k) s"
    from ne False have d: "DecodeLastRune s =
        (if snd (DecodeRune ?u) \<noteq> ?k then (RuneError, 1) else DecodeRune ?u)"
      by (simp add: DecodeLastRune_def Let_def split: prod.split)
    with assms have k: "snd (DecodeRune ?u) = ?k" and d': "DecodeLastRune s = DecodeRune ?u"
      by (auto split: if_splits)
    from assms d' have "fst (DecodeRune ?u) \<noteq> RuneError" by simp
    from DecodeRune_EncodeRune(1) [OF this] have "take ?k ?u = EncodeRune (fst (DecodeRune ?u))"
      by (simp only: k)
    moreover have "length ?u = ?k" using lastRuneWindow_le [of s] by simp
    ultimately have "?u = EncodeRune (fst (DecodeRune ?u))" by simp
    then show ?thesis using lastRuneWindow_le [of s] by (simp add: d' k)
  qed
  then show "drop (length s - snd (DecodeLastRune s)) s = EncodeRune (fst (DecodeLastRune s))"
    and "snd (DecodeLastRune s) \<le> length s"
    by simp_all
qed

lemma IsSpace_validRune: "IsSpace r \<Longrightarrow> validRune r"
  by (auto simp: IsSpace_def validRune_def)

lemma IsSpace_not_RuneError: "IsSpace r \<Longrightarrow> r \<noteq> RuneError"
  by (auto simp: IsSpace_def RuneError_def)

text \<open>
  \<open>TrimLeftSpace\<close> removes the encodings of a sequence of white-space runes from the
  front, and what it returns does not start with a white-space rune.
\<close>

lemma TrimLeftSpace_removes:
  "\<exists>rs. list_all IsSpace rs \<and> s = concat (map EncodeRune rs) @ TrimLeftSpace s"
proof (induction s rule: TrimLeftSpace.induct)
  case (1 s)
  show ?case
  proof (cases "s \<noteq> [] \<and> IsSpace (fst (DecodeRune s))")
    case True
    let ?r = "fst (DecodeRune s)" and ?k = "snd (DecodeRune s)"
    from True have "?r \<noteq> RuneError" by (simp add: IsSpace_not_RuneError)
    then have "take ?k s = EncodeRune ?r" by (rule DecodeRune_EncodeRune(1))
    then have s: "s = EncodeRune ?r @ drop ?k s" by (metis append_take_drop_id)
    from True "1.IH" obtain rs where
      rs: "list_all IsSpace rs" "drop ?k s = concat (map EncodeRune rs) @ TrimLeftSpace (drop ?k s)"
      by blast
    from True have t: "TrimLeftSpace s = TrimLeftSpace (drop ?k s)"
      by (subst TrimLeftSpace.simps) simp
    from True rs(1) have "list_all IsSpace (?r # rs)" by simp
    moreover from s rs(2) t have "s = concat (map EncodeRune (?r # rs)) @ TrimLeftSpace s"
      by simp
    ultimately show ?thesis by blast
  next
    case False
    then have "TrimLeftSpace s = s" by (subst TrimLeftSpace.simps) auto
    then have "list_all IsSpace [] \<and> s = concat (map EncodeRune []) @ TrimLeftSpace s" by simp
    then show ?thesis by blast
  qed
qed

lemma TrimLeftSpace_start:
  "TrimLeftSpace s = [] \<or> \<not> IsSpace (fst (DecodeRune (TrimLeftSpace s)))"
proof (induction s rule: TrimLeftSpace.induct)
  case (1 s)
  show ?case
  proof (cases "s \<noteq> [] \<and> IsSpace (fst (DecodeRune s))")
    case True
    then have "TrimLeftSpace s = TrimLeftSpace (drop (snd (DecodeRune s)) s)"
      by (subst TrimLeftSpace.simps) simp
    with True "1.IH" show ?thesis by simp
  next
    case False
    then have "TrimLeftSpace s = s" by (subst TrimLeftSpace.simps) auto
    with False show ?thesis by auto
  qed
qed

text \<open>The same for \<open>TrimRightSpace\<close>, at the back.\<close>

lemma TrimRightSpace_removes:
  "\<exists>rs. list_all IsSpace rs \<and> s = TrimRightSpace s @ concat (map EncodeRune rs)"
proof (induction s rule: TrimRightSpace.induct)
  case (1 s)
  show ?case
  proof (cases "s \<noteq> [] \<and> IsSpace (fst (DecodeLastRune s))")
    case True
    let ?r = "fst (DecodeLastRune s)" and ?k = "snd (DecodeLastRune s)"
    let ?s' = "take (length s - ?k) s"
    from True have "?r \<noteq> RuneError" by (simp add: IsSpace_not_RuneError)
    then have "drop (length s - ?k) s = EncodeRune ?r" by (rule DecodeLastRune_EncodeRune(1))
    then have s: "s = ?s' @ EncodeRune ?r" by (metis append_take_drop_id)
    from True "1.IH" obtain rs where
      rs: "list_all IsSpace rs" "?s' = TrimRightSpace ?s' @ concat (map EncodeRune rs)"
      by blast
    from True have t: "TrimRightSpace s = TrimRightSpace ?s'"
      by (subst TrimRightSpace.simps) simp
    from True rs(1) have "list_all IsSpace (rs @ [?r])" by simp
    moreover have "s = TrimRightSpace s @ concat (map EncodeRune (rs @ [?r]))"
    proof -
      have "TrimRightSpace s @ concat (map EncodeRune (rs @ [?r]))
          = (TrimRightSpace ?s' @ concat (map EncodeRune rs)) @ EncodeRune ?r"
        by (simp add: t)
      also have "\<dots> = ?s' @ EncodeRune ?r" by (simp only: rs(2) [symmetric])
      also have "\<dots> = s" by (rule s [symmetric])
      finally show ?thesis by (rule sym)
    qed
    ultimately show ?thesis by blast
  next
    case False
    then have "TrimRightSpace s = s" by (subst TrimRightSpace.simps) auto
    then have "list_all IsSpace [] \<and> s = TrimRightSpace s @ concat (map EncodeRune [])" by simp
    then show ?thesis by blast
  qed
qed

lemma TrimRightSpace_end:
  "TrimRightSpace s = [] \<or> \<not> IsSpace (fst (DecodeLastRune (TrimRightSpace s)))"
proof (induction s rule: TrimRightSpace.induct)
  case (1 s)
  show ?case
  proof (cases "s \<noteq> [] \<and> IsSpace (fst (DecodeLastRune s))")
    case True
    then have "TrimRightSpace s = TrimRightSpace (take (length s - snd (DecodeLastRune s)) s)"
      by (subst TrimRightSpace.simps) simp
    with True "1.IH" show ?thesis by simp
  next
    case False
    then have "TrimRightSpace s = s" by (subst TrimRightSpace.simps) auto
    with False show ?thesis by auto
  qed
qed

text \<open>
  What \<open>TrimSpace\<close> does, without reference to the decoder: it removes the encodings of
  a sequence of white-space runes at each end, and the encoding of a white-space rune is
  neither at the start nor at the end of what it returns.
\<close>

lemma TrimSpace_removes:
  "\<exists>rs1 rs2. list_all IsSpace rs1 \<and> list_all IsSpace rs2
     \<and> s = concat (map EncodeRune rs1) @ TrimSpace s @ concat (map EncodeRune rs2)"
proof -
  obtain rs1 where 1: "list_all IsSpace rs1" "s = concat (map EncodeRune rs1) @ TrimLeftSpace s"
    using TrimLeftSpace_removes by blast
  obtain rs2 where 2: "list_all IsSpace rs2"
    "TrimLeftSpace s = TrimRightSpace (TrimLeftSpace s) @ concat (map EncodeRune rs2)"
    using TrimRightSpace_removes by blast
  from 1(2) 2(2) have "s = concat (map EncodeRune rs1) @ TrimSpace s @ concat (map EncodeRune rs2)"
    by (simp add: TrimSpace_def)
  with 1(1) 2(1) show ?thesis by blast
qed

lemma TrimSpace_maximal:
  assumes "IsSpace r"
  shows "TrimSpace s \<noteq> EncodeRune r @ t" and "TrimSpace s \<noteq> t @ EncodeRune r"
proof -
  let ?u = "TrimLeftSpace s"
  show "TrimSpace s \<noteq> EncodeRune r @ t"
  proof
    assume a: "TrimSpace s = EncodeRune r @ t"
    obtain rs2 where "?u = TrimRightSpace ?u @ concat (map EncodeRune rs2)"
      using TrimRightSpace_removes by blast
    with a have u: "?u = EncodeRune r @ (t @ concat (map EncodeRune rs2))"
      by (simp add: TrimSpace_def)
    then have "?u \<noteq> []" by (simp add: EncodeRune_not_Nil)
    moreover have "fst (DecodeRune ?u) = r"
      by (subst u) (simp add: EncodeRune_DecodeRune [OF IsSpace_validRune [OF assms]])
    ultimately show False using TrimLeftSpace_start [of s] assms by simp
  qed
  show "TrimSpace s \<noteq> t @ EncodeRune r"
  proof
    assume a: "TrimSpace s = t @ EncodeRune r"
    then have "TrimRightSpace ?u \<noteq> []" by (simp add: TrimSpace_def EncodeRune_not_Nil)
    moreover from a have "fst (DecodeLastRune (TrimRightSpace ?u)) = r"
      by (simp add: TrimSpace_def [symmetric]
          EncodeRune_DecodeLastRune [OF IsSpace_validRune [OF assms]])
    ultimately show False using TrimRightSpace_end [of ?u] assms by simp
  qed
qed

section \<open>\<^verbatim>\<open>encoding/json\<close>: reading a response body\<close>

subsection \<open>JSON values and tokens\<close>

text \<open>
  A JSON value as the decoder sees it.  A number keeps its literal (no field of the
  response is numeric); a string is kept unquoted; an object keeps its members in the
  order of the text, duplicate keys included.
\<close>

datatype json =
    JNull
  | JBool bool
  | JNumber string
  | JString string
  | JArray "json list"
  | JObject "(string \<times> json) list"

datatype token =
    TBeginObject | TEndObject | TBeginArray | TEndArray | TColon | TComma
  | TScalar json

definition isSpaceJSON :: "char \<Rightarrow> bool" where
  "isSpaceJSON c \<longleftrightarrow> c = CHR 0x20 \<or> c = CHR 0x09 \<or> c = CHR 0x0D \<or> c = CHR 0x0A"

definition isDigit :: "char \<Rightarrow> bool" where
  "isDigit c \<longleftrightarrow> 0x30 \<le> byte c \<and> byte c \<le> 0x39"

definition hexVal :: "char \<Rightarrow> nat option" where
  "hexVal c =
    (let b = byte c in
     if 0x30 \<le> b \<and> b \<le> 0x39 then Some (b - 0x30)
     else if 0x61 \<le> b \<and> b \<le> 0x66 then Some (b - 0x61 + 10)
     else if 0x41 \<le> b \<and> b \<le> 0x46 then Some (b - 0x41 + 10)
     else None)"

subsection \<open>Numbers\<close>

text \<open>
  The scanner's number states: an optional minus; \<open>0\<close> or a digit \<open>1\<close>..\<open>9\<close>
  followed by digits; an optional fraction (a dot and at least one digit); an optional
  exponent (\<open>e\<close> or \<open>E\<close>, an optional sign, at least one digit).  Each function
  returns the text it read and the rest of the input.
\<close>

definition scanInt :: "string \<Rightarrow> (string \<times> string) option" where
  "scanInt s =
    (case s of
       [] \<Rightarrow> None
     | c # r \<Rightarrow>
         if c = CHR ''0'' then Some ([c], r)
         else if isDigit c then Some (c # takeWhile isDigit r, dropWhile isDigit r)
         else None)"

definition scanDigits1 :: "string \<Rightarrow> (string \<times> string) option" where
  "scanDigits1 s =
    (case s of
       [] \<Rightarrow> None
     | d # r \<Rightarrow> if isDigit d then Some (takeWhile isDigit s, dropWhile isDigit s) else None)"

definition scanFrac :: "string \<Rightarrow> (string \<times> string) option" where
  "scanFrac s =
    (case s of
       [] \<Rightarrow> Some ([], s)
     | c # r \<Rightarrow>
         if c = CHR ''.'' then
           (case scanDigits1 r of None \<Rightarrow> None | Some (ds, r') \<Rightarrow> Some (c # ds, r'))
         else Some ([], s))"

definition scanExp :: "string \<Rightarrow> (string \<times> string) option" where
  "scanExp s =
    (case s of
       [] \<Rightarrow> Some ([], s)
     | e # r \<Rightarrow>
         if e = CHR ''e'' \<or> e = CHR ''E'' then
           (case r of
              [] \<Rightarrow> None
            | g # r' \<Rightarrow>
                if g = CHR ''+'' \<or> g = CHR ''-'' then
                  (case scanDigits1 r' of
                     None \<Rightarrow> None
                   | Some (ds, r'') \<Rightarrow> Some (e # g # ds, r''))
                else
                  (case scanDigits1 r of
                     None \<Rightarrow> None
                   | Some (ds, r'') \<Rightarrow> Some (e # ds, r'')))
         else Some ([], s))"

definition scan_number :: "string \<Rightarrow> (string \<times> string) option" where
  "scan_number s =
    (let (neg, s1) = (case s of [] \<Rightarrow> ([], s) | c # r \<Rightarrow> if c = CHR ''-'' then ([c], r) else ([], s))
     in case scanInt s1 of
          None \<Rightarrow> None
        | Some (i, s2) \<Rightarrow>
            (case scanFrac s2 of
               None \<Rightarrow> None
             | Some (f, s3) \<Rightarrow>
                 (case scanExp s3 of
                    None \<Rightarrow> None
                  | Some (e, s4) \<Rightarrow> Some (neg @ i @ f @ e, s4))))"

subsection \<open>Strings\<close>

text \<open>
  \<open>getu4 s\<close>: the 16-bit value of the escape \<^verbatim>\<open>\uXXXX\<close> that \<open>s\<close> starts with,
  if it starts with one.
\<close>

definition getu4 :: "string \<Rightarrow> nat option" where
  "getu4 s =
    (case s of
       b # u # h1 # h2 # h3 # h4 # _ \<Rightarrow>
         if b = CHR 0x5C \<and> u = CHR ''u'' then
           (case (hexVal h1, hexVal h2, hexVal h3, hexVal h4) of
              (Some a, Some b, Some c, Some d) \<Rightarrow> Some (a * 0x1000 + b * 0x100 + c * 0x10 + d)
            | _ \<Rightarrow> None)
         else None
     | _ \<Rightarrow> None)"

text \<open>
  \<^verbatim>\<open>utf16.DecodeRune\<close> on a first surrogate and what follows it: the code point of a
  valid pair, nothing otherwise.
\<close>

definition utf16pair :: "nat \<Rightarrow> nat option \<Rightarrow> nat option" where
  "utf16pair r1 next =
    (case next of
       None \<Rightarrow> None
     | Some r2 \<Rightarrow>
         if 0xD800 \<le> r1 \<and> r1 < 0xDC00 \<and> 0xDC00 \<le> r2 \<and> r2 < 0xE000
         then Some ((r1 - 0xD800) * 0x400 + (r2 - 0xDC00) + 0x10000)
         else None)"

definition unescape :: "char \<Rightarrow> char option" where
  "unescape e =
    (if e = CHR 0x22 \<or> e = CHR 0x5C \<or> e = CHR ''/'' then Some e
     else if e = CHR ''b'' then Some (CHR 0x08)
     else if e = CHR ''f'' then Some (CHR 0x0C)
     else if e = CHR ''n'' then Some (CHR 0x0A)
     else if e = CHR ''r'' then Some (CHR 0x0D)
     else if e = CHR ''t'' then Some (CHR 0x09)
     else None)"

definition emit :: "string \<Rightarrow> (string \<times> string) option \<Rightarrow> (string \<times> string) option" where
  "emit pre r = (case r of None \<Rightarrow> None | Some (str, rest) \<Rightarrow> Some (pre @ str, rest))"

text \<open>
  \<open>scan_string s\<close> reads a string literal whose opening quote has been consumed: it
  returns the unquoted bytes and the input after the closing quote.  A control
  character, an unknown escape or a missing closing quote is a syntax error.  As the
  decoder's unquoting does, an escape \<^verbatim>\<open>\uXXXX\<close> becomes the UTF-8 encoding of its code
  point (a surrogate pair becomes one code point, a lone surrogate U+FFFD), and a byte
  that is not part of valid UTF-8 is replaced by U+FFFD.
\<close>

function scan_string :: "string \<Rightarrow> (string \<times> string) option" where
  "scan_string [] = None"
| "scan_string (c # s) =
    (if c = CHR 0x22 then Some ([], s)
     else if c = CHR 0x5C then
       (if s = [] then None
        else if hd s = CHR ''u'' then
          (case getu4 (c # s) of
             None \<Rightarrow> None
           | Some rr \<Rightarrow>
               if 0xD800 \<le> rr \<and> rr < 0xE000 then
                 (case utf16pair rr (getu4 (drop 5 s)) of
                    Some dec \<Rightarrow> emit (EncodeRune dec) (scan_string (drop 11 s))
                  | None \<Rightarrow> emit (EncodeRune RuneError) (scan_string (drop 5 s)))
               else emit (EncodeRune rr) (scan_string (drop 5 s)))
        else
          (case unescape (hd s) of
             None \<Rightarrow> None
           | Some b \<Rightarrow> emit [b] (scan_string (tl s))))
     else if byte c < 0x20 then None
     else if byte c < 0x80 then emit [c] (scan_string s)
     else
       emit (EncodeRune (fst (DecodeRune (c # s))))
         (scan_string (drop (snd (DecodeRune (c # s))) (c # s))))"
  by pat_completeness auto
termination
  using drop_DecodeRune_shorter [of "c # s" for c s]
  by (relation "measure length") (auto simp: less_Suc_eq_le)

declare scan_string.simps [simp del]

lemma emit_rest: "emit pre r = Some (str, rest) \<Longrightarrow> \<exists>str'. r = Some (str', rest)"
  by (cases r) (auto simp: emit_def)

lemma scan_string_rest: "scan_string s = Some (str, rest) \<Longrightarrow> length rest < length s"
proof (induction s arbitrary: str rest rule: scan_string.induct)
  case 1
  then show ?case by (simp add: scan_string.simps)
next
  case (2 c s)
  note eq = "2.prems" [unfolded scan_string.simps(2) [of c s]]
  show ?case
  proof (cases "c = CHR 0x22")
    case True
    with eq show ?thesis by simp
  next
    case quote: False
    show ?thesis
    proof (cases "c = CHR 0x5C")
      case esc: True
      show ?thesis
      proof (cases "s = []")
        case True
        with eq quote esc show ?thesis by simp
      next
        case ne: False
        show ?thesis
        proof (cases "hd s = CHR ''u''")
          case u: True
          from eq quote esc ne u obtain rr where rr: "getu4 (c # s) = Some rr"
            by (auto split: option.splits)
          show ?thesis
          proof (cases "0xD800 \<le> rr \<and> rr < 0xE000")
            case sur: True
            show ?thesis
            proof (cases "utf16pair rr (getu4 (drop 5 s))")
              case None
              with eq quote esc ne u rr sur
              obtain str' where "scan_string (drop 5 s) = Some (str', rest)"
                by (auto dest!: emit_rest)
              with "2.IH"(1) [OF quote esc ne u rr _ None] sur
              have "length rest < length (drop 5 s)" by blast
              then show ?thesis by simp
            next
              case (Some dec)
              with eq quote esc ne u rr sur
              obtain str' where "scan_string (drop 11 s) = Some (str', rest)"
                by (auto dest!: emit_rest)
              with "2.IH"(2) [OF quote esc ne u rr _ Some] sur
              have "length rest < length (drop 11 s)" by blast
              then show ?thesis by simp
            qed
          next
            case nsur: False
            with eq quote esc ne u rr
            obtain str' where "scan_string (drop 5 s) = Some (str', rest)"
              by (auto dest!: emit_rest)
            with "2.IH"(3) [OF quote esc ne u rr nsur]
            have "length rest < length (drop 5 s)" by blast
            then show ?thesis by simp
          qed
        next
          case nu: False
          from eq quote esc ne nu obtain b where b: "unescape (hd s) = Some b"
            by (auto split: option.splits)
          with eq quote esc ne nu
          obtain str' where "scan_string (tl s) = Some (str', rest)"
            by (auto dest!: emit_rest)
          with "2.IH"(4) [OF quote esc ne nu b]
          have "length rest < length (tl s)" by blast
          then show ?thesis by simp
        qed
      qed
    next
      case nesc: False
      show ?thesis
      proof (cases "byte c < 0x20")
        case True
        with eq quote nesc show ?thesis by simp
      next
        case nctl: False
        show ?thesis
        proof (cases "byte c < 0x80")
          case ascii: True
          with eq quote nesc nctl
          obtain str' where "scan_string s = Some (str', rest)"
            by (auto dest!: emit_rest)
          with "2.IH"(5) [OF quote nesc nctl ascii]
          have "length rest < length s" by blast
          then show ?thesis by simp
        next
          case nascii: False
          with eq quote nesc nctl
          obtain str' where
            "scan_string (drop (snd (DecodeRune (c # s))) (c # s)) = Some (str', rest)"
            by (auto dest!: emit_rest)
          with "2.IH"(6) [OF quote nesc nctl nascii]
          have "length rest < length (drop (snd (DecodeRune (c # s))) (c # s))" by blast
          then show ?thesis by simp
        qed
      qed
    qed
  qed
qed

lemma scanDigits1_rest: "scanDigits1 s = Some (ds, r) \<Longrightarrow> length r \<le> length s"
  by (auto simp: scanDigits1_def split: list.splits if_splits
      intro: le_SucI length_dropWhile_le)

lemma scanInt_rest: "scanInt s = Some (i, r) \<Longrightarrow> length r < length s"
  by (auto simp: scanInt_def length_dropWhile_le less_Suc_eq_le split: list.splits if_splits)

lemma scanFrac_rest: "scanFrac s = Some (f, r) \<Longrightarrow> length r \<le> length s"
  by (auto simp: scanFrac_def split: list.splits if_splits option.splits
      dest!: scanDigits1_rest)

lemma scanExp_rest: "scanExp s = Some (e, r) \<Longrightarrow> length r \<le> length s"
  by (auto simp: scanExp_def split: list.splits if_splits option.splits
      dest!: scanDigits1_rest)

lemma scan_number_rest: "scan_number s = Some (lit, rest) \<Longrightarrow> length rest < length s"
  by (auto simp: scan_number_def split: list.splits if_splits option.splits
      dest!: scanInt_rest scanFrac_rest scanExp_rest)

subsection \<open>Tokens\<close>

definition push :: "token \<Rightarrow> token list option \<Rightarrow> token list option" where
  "push t r = (case r of None \<Rightarrow> None | Some ts \<Rightarrow> Some (t # ts))"

text \<open>
  The tokens of a text: punctuation, scalars (string, number, \<open>true\<close>, \<open>false\<close>,
  \<open>null\<close>), with the white space between them (space, tab, carriage return, line
  feed) dropped.  Any other byte where a token must start is a syntax error.
\<close>

function tokenize :: "string \<Rightarrow> token list option" where
  "tokenize [] = Some []"
| "tokenize (c # s) =
    (if isSpaceJSON c then tokenize s
     else if c = CHR ''{'' then push TBeginObject (tokenize s)
     else if c = CHR ''}'' then push TEndObject (tokenize s)
     else if c = CHR ''['' then push TBeginArray (tokenize s)
     else if c = CHR '']'' then push TEndArray (tokenize s)
     else if c = CHR '':'' then push TColon (tokenize s)
     else if c = CHR '','' then push TComma (tokenize s)
     else if c = CHR 0x22 then
       (case scan_string s of
          None \<Rightarrow> None
        | Some r \<Rightarrow> push (TScalar (JString (fst r))) (tokenize (snd r)))
     else if c = CHR ''-'' \<or> isDigit c then
       (case scan_number (c # s) of
          None \<Rightarrow> None
        | Some r \<Rightarrow> push (TScalar (JNumber (fst r))) (tokenize (snd r)))
     else if take 4 (c # s) = ''true'' then push (TScalar (JBool True)) (tokenize (drop 3 s))
     else if take 5 (c # s) = ''false'' then push (TScalar (JBool False)) (tokenize (drop 4 s))
     else if take 4 (c # s) = ''null'' then push (TScalar JNull) (tokenize (drop 3 s))
     else None)"
  by pat_completeness auto
termination
proof (relation "measure length", goal_cases)
  case (9 c s r)
  then show ?case using scan_string_rest [of s "fst r" "snd r"] by simp
next
  case (10 c s r)
  then show ?case using scan_number_rest [of "c # s" "fst r" "snd r"] by simp
qed (auto simp: less_Suc_eq_le)

declare tokenize.simps [simp del]

subsection \<open>The grammar\<close>

text \<open>
  The scanner is a state machine over a stack of the arrays and objects that are open.
  A frame keeps what has been read of its container, latest first; an object frame is
  \<open>InMember\<close> between a key and the end of its value.  The stack holds at most 10000
  frames.
\<close>

datatype frame =
    InArray "json list"
  | InObject "(string \<times> json) list"
  | InMember "(string \<times> json) list" string

datatype pstate =
    BeginValue
  | BeginValueOrEmpty
  | BeginStringOrEmpty
  | BeginString
  | ObjectColon
  | EndValue json

definition maxNestingDepth :: nat where
  "maxNestingDepth = 10000"

definition beginValue :: "frame list \<Rightarrow> token \<Rightarrow> (pstate \<times> frame list) option" where
  "beginValue stk t =
    (case t of
       TScalar v \<Rightarrow> Some (EndValue v, stk)
     | TBeginArray \<Rightarrow>
         if length stk < maxNestingDepth then Some (BeginValueOrEmpty, InArray [] # stk)
         else None
     | TBeginObject \<Rightarrow>
         if length stk < maxNestingDepth then Some (BeginStringOrEmpty, InObject [] # stk)
         else None
     | _ \<Rightarrow> None)"

definition beginString :: "frame list \<Rightarrow> token \<Rightarrow> (pstate \<times> frame list) option" where
  "beginString stk t =
    (case t of
       TScalar (JString k) \<Rightarrow>
         (case stk of
            InObject ms # stk' \<Rightarrow> Some (ObjectColon, InMember ms k # stk')
          | _ \<Rightarrow> None)
     | _ \<Rightarrow> None)"

definition endValue :: "json \<Rightarrow> frame list \<Rightarrow> token \<Rightarrow> (pstate \<times> frame list) option" where
  "endValue v stk t =
    (case stk of
       [] \<Rightarrow> None
     | InArray acc # stk' \<Rightarrow>
         (case t of
            TComma \<Rightarrow> Some (BeginValue, InArray (v # acc) # stk')
          | TEndArray \<Rightarrow> Some (EndValue (JArray (rev (v # acc))), stk')
          | _ \<Rightarrow> None)
     | InMember ms k # stk' \<Rightarrow>
         (case t of
            TComma \<Rightarrow> Some (BeginString, InObject ((k, v) # ms) # stk')
          | TEndObject \<Rightarrow> Some (EndValue (JObject (rev ((k, v) # ms))), stk')
          | _ \<Rightarrow> None)
     | InObject ms # stk' \<Rightarrow> None)"

definition step :: "pstate \<Rightarrow> frame list \<Rightarrow> token \<Rightarrow> (pstate \<times> frame list) option" where
  "step st stk t =
    (case st of
       BeginValue \<Rightarrow> beginValue stk t
     | BeginValueOrEmpty \<Rightarrow>
         (case t of
            TEndArray \<Rightarrow>
              (case stk of
                 InArray acc # stk' \<Rightarrow> Some (EndValue (JArray (rev acc)), stk')
               | _ \<Rightarrow> None)
          | _ \<Rightarrow> beginValue stk t)
     | BeginStringOrEmpty \<Rightarrow>
         (case t of
            TEndObject \<Rightarrow>
              (case stk of
                 InObject ms # stk' \<Rightarrow> Some (EndValue (JObject (rev ms)), stk')
               | _ \<Rightarrow> None)
          | _ \<Rightarrow> beginString stk t)
     | BeginString \<Rightarrow> beginString stk t
     | ObjectColon \<Rightarrow> (case t of TColon \<Rightarrow> Some (BeginValue, stk) | _ \<Rightarrow> None)
     | EndValue v \<Rightarrow> endValue v stk t)"

text \<open>
  The text is one value: at the end of the tokens the machine must have finished a
  value with nothing open.
\<close>

fun parse :: "pstate \<Rightarrow> frame list \<Rightarrow> token list \<Rightarrow> json option" where
  "parse st stk [] =
    (case st of
       EndValue v \<Rightarrow> (case stk of [] \<Rightarrow> Some v | _ \<Rightarrow> None)
     | _ \<Rightarrow> None)"
| "parse st stk (t # ts) =
    (case step st stk t of
       None \<Rightarrow> None
     | Some next \<Rightarrow> parse (fst next) (snd next) ts)"

definition parseJSON :: "string \<Rightarrow> json option" where
  "parseJSON data =
    (case tokenize data of None \<Rightarrow> None | Some ts \<Rightarrow> parse BeginValue [] ts)"

section \<open>The payloads of the OpenRouter API\<close>

text \<open>The request and response structures of \<^verbatim>\<open>openrouter_summarizer.go\<close>.\<close>

record openRouterMessage =
  Role :: string
  Content :: string

record openRouterRequest =
  Model :: string
  Messages :: "openRouterMessage list"

record openRouterError =
  Message :: string
  Type :: string

record openRouterChoice =
  Message :: openRouterMessage

text \<open>
  \<open>Error\<close> is a pointer in the source: \<open>None\<close> is \<^verbatim>\<open>nil\<close>.  A \<^verbatim>\<open>nil\<close> slice and an
  empty slice are both the empty list (the source only takes the length).
\<close>

record openRouterResponse =
  Choices :: "openRouterChoice list"
  Error :: "openRouterError option"

definition zeroMessage :: openRouterMessage where
  "zeroMessage = \<lparr>Role = [], Content = []\<rparr>"

definition zeroChoice :: openRouterChoice where
  "zeroChoice = \<lparr>Message = zeroMessage\<rparr>"

definition zeroError :: openRouterError where
  "zeroError = \<lparr>openRouterError.Message = [], Type = []\<rparr>"

definition zeroResponse :: openRouterResponse where
  "zeroResponse = \<lparr>Choices = [], Error = None\<rparr>"

subsection \<open>\<^verbatim>\<open>json.Unmarshal\<close> into \<^verbatim>\<open>openRouterResponse\<close>\<close>

text \<open>
  A key of a JSON object selects the field whose name (its \<^verbatim>\<open>json\<close> tag) it equals,
  and otherwise the field whose name it equals when case is ignored.  The library
  compares the folded forms of key and name: ASCII letters in upper case, and every
  other rune replaced by the least rune it is case-equivalent to.  The only runes
  outside ASCII that are case-equivalent to an ASCII letter are U+017F (to \<open>S\<close>) and
  U+212A (to \<open>K\<close>); \<open>foldName\<close> leaves every other such rune as it is, which cannot
  change whether the result equals the folded form of an ASCII name.
\<close>

function foldName :: "string \<Rightarrow> string" where
  "foldName [] = []"
| "foldName (c # s) =
    (if byte c < 0x80 then
       (if 0x61 \<le> byte c \<and> byte c \<le> 0x7A then char_of (byte c - 0x20) else c) # foldName s
     else
       (let r = fst (DecodeRune (c # s)) in
        if r = 0x17F then ''S'' else if r = 0x212A then ''K'' else EncodeRune r)
       @ foldName (drop (snd (DecodeRune (c # s))) (c # s)))"
  by pat_completeness auto
termination
  using drop_DecodeRune_shorter [of "c # s" for c s]
  by (relation "measure length") (auto simp: less_Suc_eq_le)

declare foldName.simps [simp del]

definition fieldIs :: "string \<Rightarrow> string \<Rightarrow> bool" where
  "fieldIs key name \<longleftrightarrow> key = name \<or> foldName key = foldName name"

text \<open>
  The decoder fills a value that exists already (at the start, the zero value).  A JSON
  \<open>null\<close> leaves a string or a structure as it is and sets a pointer or a slice to
  \<^verbatim>\<open>nil\<close>; a key that selects no field is skipped; a JSON value of the wrong kind for
  its field is an \<^verbatim>\<open>UnmarshalTypeError\<close>, and \<^verbatim>\<open>Unmarshal\<close> then returns an error
  (the source discards the structure in that case, so decoding stops here at the first
  such error).
\<close>

datatype json_error = SyntaxError | UnmarshalTypeError

fun decodeString :: "json \<Rightarrow> string \<Rightarrow> json_error + string" where
  "decodeString (JString s) cur = Inr s"
| "decodeString JNull cur = Inr cur"
| "decodeString (JBool b) cur = Inl UnmarshalTypeError"
| "decodeString (JNumber n) cur = Inl UnmarshalTypeError"
| "decodeString (JArray vs) cur = Inl UnmarshalTypeError"
| "decodeString (JObject kvs) cur = Inl UnmarshalTypeError"

fun decodeMessageFields ::
  "(string \<times> json) list \<Rightarrow> openRouterMessage \<Rightarrow> json_error + openRouterMessage" where
  "decodeMessageFields [] m = Inr m"
| "decodeMessageFields (kv # kvs) m =
    (if fieldIs (fst kv) ''role'' then
       (case decodeString (snd kv) (Role m) of
          Inl e \<Rightarrow> Inl e
        | Inr s \<Rightarrow> decodeMessageFields kvs (m\<lparr>Role := s\<rparr>))
     else if fieldIs (fst kv) ''content'' then
       (case decodeString (snd kv) (Content m) of
          Inl e \<Rightarrow> Inl e
        | Inr s \<Rightarrow> decodeMessageFields kvs (m\<lparr>Content := s\<rparr>))
     else decodeMessageFields kvs m)"

fun decodeMessage :: "json \<Rightarrow> openRouterMessage \<Rightarrow> json_error + openRouterMessage" where
  "decodeMessage (JObject kvs) m = decodeMessageFields kvs m"
| "decodeMessage JNull m = Inr m"
| "decodeMessage (JBool b) m = Inl UnmarshalTypeError"
| "decodeMessage (JNumber n) m = Inl UnmarshalTypeError"
| "decodeMessage (JString s) m = Inl UnmarshalTypeError"
| "decodeMessage (JArray vs) m = Inl UnmarshalTypeError"

fun decodeChoiceFields ::
  "(string \<times> json) list \<Rightarrow> openRouterChoice \<Rightarrow> json_error + openRouterChoice" where
  "decodeChoiceFields [] c = Inr c"
| "decodeChoiceFields (kv # kvs) c =
    (if fieldIs (fst kv) ''message'' then
       (case decodeMessage (snd kv) (Message c) of
          Inl e \<Rightarrow> Inl e
        | Inr m \<Rightarrow> decodeChoiceFields kvs (c\<lparr>Message := m\<rparr>))
     else decodeChoiceFields kvs c)"

fun decodeChoice :: "json \<Rightarrow> openRouterChoice \<Rightarrow> json_error + openRouterChoice" where
  "decodeChoice (JObject kvs) c = decodeChoiceFields kvs c"
| "decodeChoice JNull c = Inr c"
| "decodeChoice (JBool b) c = Inl UnmarshalTypeError"
| "decodeChoice (JNumber n) c = Inl UnmarshalTypeError"
| "decodeChoice (JString s) c = Inl UnmarshalTypeError"
| "decodeChoice (JArray vs) c = Inl UnmarshalTypeError"

text \<open>
  A JSON array into a slice: as the documentation of \<^verbatim>\<open>Unmarshal\<close> has it, the length
  of the slice is reset to zero and each element is appended, decoded into a new zero
  element.
\<close>

fun decodeChoiceElems :: "json list \<Rightarrow> json_error + openRouterChoice list" where
  "decodeChoiceElems [] = Inr []"
| "decodeChoiceElems (v # vs) =
    (case decodeChoice v zeroChoice of
       Inl e \<Rightarrow> Inl e
     | Inr c \<Rightarrow>
         (case decodeChoiceElems vs of
            Inl e \<Rightarrow> Inl e
          | Inr cs \<Rightarrow> Inr (c # cs)))"

fun decodeChoices :: "json \<Rightarrow> json_error + openRouterChoice list" where
  "decodeChoices (JArray vs) = decodeChoiceElems vs"
| "decodeChoices JNull = Inr []"
| "decodeChoices (JBool b) = Inl UnmarshalTypeError"
| "decodeChoices (JNumber n) = Inl UnmarshalTypeError"
| "decodeChoices (JString s) = Inl UnmarshalTypeError"
| "decodeChoices (JObject kvs) = Inl UnmarshalTypeError"

fun decodeErrorFields ::
  "(string \<times> json) list \<Rightarrow> openRouterError \<Rightarrow> json_error + openRouterError" where
  "decodeErrorFields [] e = Inr e"
| "decodeErrorFields (kv # kvs) e =
    (if fieldIs (fst kv) ''message'' then
       (case decodeString (snd kv) (openRouterError.Message e) of
          Inl err \<Rightarrow> Inl err
        | Inr s \<Rightarrow> decodeErrorFields kvs (e\<lparr>openRouterError.Message := s\<rparr>))
     else if fieldIs (fst kv) ''type'' then
       (case decodeString (snd kv) (Type e) of
          Inl err \<Rightarrow> Inl err
        | Inr s \<Rightarrow> decodeErrorFields kvs (e\<lparr>Type := s\<rparr>))
     else decodeErrorFields kvs e)"

text \<open>
  A JSON object into a pointer: a \<^verbatim>\<open>nil\<close> pointer gets a new zero structure, another
  one keeps the structure it points to, and the object is decoded into it.
\<close>

fun decodeErrorPtr ::
  "json \<Rightarrow> openRouterError option \<Rightarrow> json_error + openRouterError option" where
  "decodeErrorPtr (JObject kvs) p =
    (case decodeErrorFields kvs (case p of None \<Rightarrow> zeroError | Some e \<Rightarrow> e) of
       Inl err \<Rightarrow> Inl err
     | Inr e \<Rightarrow> Inr (Some e))"
| "decodeErrorPtr JNull p = Inr None"
| "decodeErrorPtr (JBool b) p = Inl UnmarshalTypeError"
| "decodeErrorPtr (JNumber n) p = Inl UnmarshalTypeError"
| "decodeErrorPtr (JString s) p = Inl UnmarshalTypeError"
| "decodeErrorPtr (JArray vs) p = Inl UnmarshalTypeError"

fun decodeResponseFields ::
  "(string \<times> json) list \<Rightarrow> openRouterResponse \<Rightarrow> json_error + openRouterResponse" where
  "decodeResponseFields [] r = Inr r"
| "decodeResponseFields (kv # kvs) r =
    (if fieldIs (fst kv) ''choices'' then
       (case decodeChoices (snd kv) of
          Inl err \<Rightarrow> Inl err
        | Inr cs \<Rightarrow> decodeResponseFields kvs (r\<lparr>Choices := cs\<rparr>))
     else if fieldIs (fst kv) ''error'' then
       (case decodeErrorPtr (snd kv) (Error r) of
          Inl err \<Rightarrow> Inl err
        | Inr p \<Rightarrow> decodeResponseFields kvs (r\<lparr>Error := p\<rparr>))
     else decodeResponseFields kvs r)"

fun decodeResponse :: "json \<Rightarrow> openRouterResponse \<Rightarrow> json_error + openRouterResponse" where
  "decodeResponse (JObject kvs) r = decodeResponseFields kvs r"
| "decodeResponse JNull r = Inr r"
| "decodeResponse (JBool b) r = Inl UnmarshalTypeError"
| "decodeResponse (JNumber n) r = Inl UnmarshalTypeError"
| "decodeResponse (JString s) r = Inl UnmarshalTypeError"
| "decodeResponse (JArray vs) r = Inl UnmarshalTypeError"

text \<open>
  \<^verbatim>\<open>json.Unmarshal(body, &openRouterResp)\<close> on a fresh \<^verbatim>\<open>openRouterResp\<close>: the text is
  checked first, then decoded.
\<close>

definition Unmarshal :: "string \<Rightarrow> json_error + openRouterResponse" where
  "Unmarshal data =
    (case parseJSON data of
       None \<Rightarrow> Inl SyntaxError
     | Some v \<Rightarrow> decodeResponse v zeroResponse)"

section \<open>The world outside: environment, HTTP, logging\<close>

subsection \<open>\<^verbatim>\<open>net/http\<close>\<close>

text \<open>
  \<^verbatim>\<open>textproto.CanonicalMIMEHeaderKey\<close>: a key of header-field bytes only gets an upper
  case letter first and after each hyphen and lower case letters elsewhere; any other
  key is left as it is.
\<close>

definition validHeaderFieldByte :: "char \<Rightarrow> bool" where
  "validHeaderFieldByte c \<longleftrightarrow>
     (0x30 \<le> byte c \<and> byte c \<le> 0x39) \<or> (0x41 \<le> byte c \<and> byte c \<le> 0x5A)
     \<or> (0x61 \<le> byte c \<and> byte c \<le> 0x7A)
     \<or> c \<in> set [CHR 0x21, CHR 0x23, CHR 0x24, CHR 0x25, CHR 0x26, CHR 0x27, CHR 0x2A,
                  CHR 0x2B, CHR 0x2D, CHR 0x2E, CHR 0x5E, CHR 0x5F, CHR 0x60, CHR 0x7C,
                  CHR 0x7E]"

fun canonicalLetters :: "bool \<Rightarrow> string \<Rightarrow> string" where
  "canonicalLetters upper [] = []"
| "canonicalLetters upper (c # s) =
    (let c' =
       (if upper \<and> 0x61 \<le> byte c \<and> byte c \<le> 0x7A then char_of (byte c - 0x20)
        else if \<not> upper \<and> 0x41 \<le> byte c \<and> byte c \<le> 0x5A then char_of (byte c + 0x20)
        else c)
     in c' # canonicalLetters (c' = CHR ''-'') s)"

definition CanonicalMIMEHeaderKey :: "string \<Rightarrow> string" where
  "CanonicalMIMEHeaderKey s = (if list_all validHeaderFieldByte s then canonicalLetters True s else s)"

type_synonym header = "string \<rightharpoonup> string list"

record http_request =
  Method :: string
  URL :: string
  Header :: header
  Body :: string

text \<open>\<^verbatim>\<open>req.Header.Set(key, value)\<close>: the values of the canonical key become the one value.\<close>

definition Header_Set :: "http_request \<Rightarrow> string \<Rightarrow> string \<Rightarrow> http_request" where
  "Header_Set req key v = req\<lparr>Header := (Header req)(CanonicalMIMEHeaderKey key \<mapsto> [v])\<rparr>"

text \<open>
  A response as the source uses it: the status code, and what \<^verbatim>\<open>io.ReadAll(resp.Body)\<close>
  returns, an error (\<open>Inl\<close>, with its text) or the bytes of the body.
\<close>

record http_response =
  StatusCode :: int
  ReadAll :: "string + string"

subsection \<open>What the function cannot compute\<close>

text \<open>
  \<^item> \<open>Environ\<close>: the process environment at the call.
  \<^item> \<open>json_Marshal\<close>: \<^verbatim>\<open>json.Marshal\<close> of the request payload, an error (with its text)
    or the bytes.
  \<^item> \<open>http_NewRequest_err\<close>: the error, if any, with which \<^verbatim>\<open>http.NewRequest\<close>
    rejects a method and a URL.
  \<^item> \<open>client_Do\<close>: what \<^verbatim>\<open>client.Do\<close> returns for a client with the given timeout
    (in nanoseconds) and a request: an error (no connection, a timeout, ...) or a
    response.
\<close>

record world =
  Environ :: environ
  json_Marshal :: "openRouterRequest \<Rightarrow> string + string"
  http_NewRequest_err :: "string \<Rightarrow> string \<Rightarrow> string option"
  client_Do :: "int \<Rightarrow> http_request \<Rightarrow> string + http_response"

text \<open>
  \<^verbatim>\<open>http.NewRequest(method, url, body)\<close>: an error, or a request with that method
  (\<^verbatim>\<open>GET\<close> for the empty method), URL and body and an empty header.
\<close>

definition NewRequest :: "world \<Rightarrow> string \<Rightarrow> string \<Rightarrow> string \<Rightarrow> string + http_request" where
  "NewRequest w method url body =
    (let method = (if method = [] then ''GET'' else method) in
     case http_NewRequest_err w method url of
       Some err \<Rightarrow> Inl err
     | None \<Rightarrow> Inr \<lparr>Method = method, URL = url, Header = Map.empty, Body = body\<rparr>)"

subsection \<open>What the function does to the world\<close>

text \<open>
  The effects of a call, in order: a line logged at debug or warning level (the format
  and its arguments), a request handed to \<^verbatim>\<open>client.Do\<close> (with the client's timeout),
  and the deferred \<^verbatim>\<open>resp.Body.Close()\<close>.
\<close>

datatype logarg = ArgString string | ArgInt int | ArgError json_error

datatype event =
    LogDebug string "logarg list"
  | LogWarn string "logarg list"
  | HTTPDo int http_request
  | BodyClose

fun requests :: "event list \<Rightarrow> http_request list" where
  "requests [] = []"
| "requests (HTTPDo t req # evs) = req # requests evs"
| "requests (LogDebug f args # evs) = requests evs"
| "requests (LogWarn f args # evs) = requests evs"
| "requests (BodyClose # evs) = requests evs"

section \<open>\<^verbatim>\<open>SummarizePlans\<close>\<close>

definition openRouterURL :: string where
  "openRouterURL = ''https://openrouter.ai/api/v1/chat/completions''"

definition openRouterAPIKeyEnv :: string where
  "openRouterAPIKeyEnv = ''OPENROUTER_API_KEY''"

definition openRouterSystemPromptEnv :: string where
  "openRouterSystemPromptEnv = ''OPENROUTER_TERRAFORM_PLAN_SUMMARIZER_SYSTEM_PROMPT''"

text \<open>\<^verbatim>\<open>30 * time.Second\<close>, in nanoseconds.\<close>

definition openRouterTimeout :: int where
  "openRouterTimeout = 30 * 1000000000"

definition defaultSystemPrompt :: string where
  \<open>defaultSystemPrompt =
     ''You are giving a summary of the changes in this terraform plan to a '' @
     ''senior engineer. They are looking to know at a glance what is in this '' @
     ''plan. Especially highlight any differences between environments; this '' @
     ''is very important. For example, if a change is only being applied to '' @
     ''one environment this MUST be called out. Your output should be a '' @
     ''one-sentence summary followed by detailed bullet points of the '' @
     ''changes to be made. Use as many bullet points as you need; the bullet '' @
     ''points must cover every change. You may summarize a change, such as '' @
     ''"the AMI is being updated from X to Y in all environments"; these '' @
     ''would not need to be individual bullets. If a change is happening to '' @
     ''every environment in the output, do not enumerate environments, just '' @
     ''say "all environments" or "all worker_generic" environments.''\<close>

text \<open>
  The function returns the summary; the model returns it with the effects of the call.
  The logger is the caller's and is assumed to be usable.
\<close>

definition SummarizePlans :: "world \<Rightarrow> string list \<Rightarrow> string \<times> event list" where
  "SummarizePlans w terraformOutputs =
    (if length terraformOutputs = 0 then
       ([], [LogDebug ''no terraform outputs to summarize'' []])
     else
       let apiKey = Getenv (Environ w) openRouterAPIKeyEnv in
       if apiKey = [] then
         ([], [LogDebug ''OPENROUTER_API_KEY not set, skipping plan summarization'' []])
       else
         let combinedOutput =
               Join terraformOutputs ''\<newline>\<newline>---\<newline>\<newline>'';
             envPrompt = Getenv (Environ w) openRouterSystemPromptEnv;
             systemPrompt = (if envPrompt = [] then defaultSystemPrompt else envPrompt);
             reqBody =
               \<lparr>Model = ''anthropic/claude-sonnet-4.5'',
                Messages =
                  [\<lparr>Role = ''system'', Content = systemPrompt\<rparr>,
                   \<lparr>Role = ''user'', Content = combinedOutput\<rparr>]\<rparr>
         in
         case json_Marshal w reqBody of
           Inl err \<Rightarrow> ([], [LogWarn ''failed to marshal OpenRouter request: %s'' [ArgString err]])
         | Inr jsonData \<Rightarrow>
             (case NewRequest w ''POST'' openRouterURL jsonData of
                Inl err \<Rightarrow>
                  ([], [LogWarn ''failed to create OpenRouter request: %s'' [ArgString err]])
              | Inr req0 \<Rightarrow>
                  let req1 = Header_Set req0 ''Authorization'' (''Bearer '' @ apiKey);
                      req2 = Header_Set req1 ''Content-Type'' ''application/json'';
                      req = Header_Set req2 ''HTTP-Referer''
                              ''https://github.com/memfault/atlantis-openrouter-summarizer'';
                      sent =
                        [LogDebug ''sending plan to OpenRouter for summarization'' [],
                         HTTPDo openRouterTimeout req]
                  in
                  case client_Do w openRouterTimeout req of
                    Inl err \<Rightarrow>
                      ([], sent @
                         [LogWarn ''failed to send request to OpenRouter: %s'' [ArgString err]])
                  | Inr resp \<Rightarrow>
                      (case ReadAll resp of
                         Inl err \<Rightarrow>
                           ([], sent @
                              [LogWarn ''failed to read OpenRouter response: %s'' [ArgString err],
                               BodyClose])
                       | Inr body \<Rightarrow>
                           if StatusCode resp \<noteq> 200 then
                             ([], sent @
                                [LogWarn ''OpenRouter API returned status %d: %s''
                                   [ArgInt (StatusCode resp), ArgString body],
                                 BodyClose])
                           else
                             (case Unmarshal body of
                                Inl err \<Rightarrow>
                                  ([], sent @
                                     [LogWarn ''failed to parse OpenRouter response: %s''
                                        [ArgError err],
                                      BodyClose])
                              | Inr openRouterResp \<Rightarrow>
                                  (case Error openRouterResp of
                                     Some e \<Rightarrow>
                                       ([], sent @
                                          [LogWarn ''OpenRouter API error: %s (type: %s)''
                                             [ArgString (openRouterError.Message e),
                                              ArgString (Type e)],
                                           BodyClose])
                                   | None \<Rightarrow>
                                       if length (Choices openRouterResp) = 0 then
                                         ([], sent @
                                            [LogWarn ''OpenRouter response contained no choices'' [],
                                             BodyClose])
                                       else
                                         let summary =
                                               TrimSpace
                                                 (Content (Message (Choices openRouterResp ! 0)))
                                         in
                                         if summary = [] then
                                           ([], sent @
                                              [LogWarn ''OpenRouter returned empty summary'' [],
                                               BodyClose])
                                         else
                                           (summary, sent @
                                              [LogDebug
                                                 ''successfully received summary from OpenRouter'' [],
                                               BodyClose]))))))"

section \<open>The stages of a call\<close>

text \<open>
  Three views of parts of \<open>SummarizePlans\<close>, each proved below to be what the function
  computes: the payload it marshals, the request it hands to the client, and what it
  makes of a response.
\<close>

definition payload :: "world \<Rightarrow> string list \<Rightarrow> openRouterRequest" where
  "payload w outs =
     \<lparr>Model = ''anthropic/claude-sonnet-4.5'',
      Messages =
        [\<lparr>Role = ''system'',
          Content =
            (if Getenv (Environ w) openRouterSystemPromptEnv = [] then defaultSystemPrompt
             else Getenv (Environ w) openRouterSystemPromptEnv)\<rparr>,
         \<lparr>Role = ''user'', Content = Join outs ''\<newline>\<newline>---\<newline>\<newline>''\<rparr>]\<rparr>"

definition builtRequest :: "string \<Rightarrow> string \<Rightarrow> http_request" where
  "builtRequest apiKey jsonData =
     \<lparr>Method = ''POST'', URL = openRouterURL,
      Header =
        [''Authorization'' \<mapsto> [''Bearer '' @ apiKey],
         ''Content-Type'' \<mapsto> [''application/json''],
         ''Http-Referer'' \<mapsto> [''https://github.com/memfault/atlantis-openrouter-summarizer'']],
      Body = jsonData\<rparr>"

definition readSummary :: "http_response \<Rightarrow> string \<times> event list" where
  "readSummary resp =
    (case ReadAll resp of
       Inl err \<Rightarrow> ([], [LogWarn ''failed to read OpenRouter response: %s'' [ArgString err]])
     | Inr body \<Rightarrow>
         if StatusCode resp \<noteq> 200 then
           ([], [LogWarn ''OpenRouter API returned status %d: %s''
                   [ArgInt (StatusCode resp), ArgString body]])
         else
           (case Unmarshal body of
              Inl err \<Rightarrow> ([], [LogWarn ''failed to parse OpenRouter response: %s'' [ArgError err]])
            | Inr r \<Rightarrow>
                (case Error r of
                   Some e \<Rightarrow>
                     ([], [LogWarn ''OpenRouter API error: %s (type: %s)''
                             [ArgString (openRouterError.Message e), ArgString (Type e)]])
                 | None \<Rightarrow>
                     if Choices r = [] then
                       ([], [LogWarn ''OpenRouter response contained no choices'' []])
                     else if TrimSpace (Content (Message (Choices r ! 0))) = [] then
                       ([], [LogWarn ''OpenRouter returned empty summary'' []])
                     else
                       (TrimSpace (Content (Message (Choices r ! 0))),
                        [LogDebug ''successfully received summary from OpenRouter'' []]))))"

lemmas byte_eval = char_of_def bit_iff_odd_drop_bit drop_bit_eq_div

lemma canonical_Authorization: "CanonicalMIMEHeaderKey ''Authorization'' = ''Authorization''"
  by (simp add: CanonicalMIMEHeaderKey_def validHeaderFieldByte_def Let_def byte_eval)

lemma canonical_Content_Type: "CanonicalMIMEHeaderKey ''Content-Type'' = ''Content-Type''"
  by (simp add: CanonicalMIMEHeaderKey_def validHeaderFieldByte_def Let_def byte_eval)

lemma canonical_HTTP_Referer: "CanonicalMIMEHeaderKey ''HTTP-Referer'' = ''Http-Referer''"
  by (simp add: CanonicalMIMEHeaderKey_def validHeaderFieldByte_def Let_def byte_eval)

lemma NewRequest_POST:
  "NewRequest w ''POST'' url body =
     (case http_NewRequest_err w ''POST'' url of
        Some err \<Rightarrow> Inl err
      | None \<Rightarrow> Inr \<lparr>Method = ''POST'', URL = url, Header = Map.empty, Body = body\<rparr>)"
  by (simp add: NewRequest_def Let_def)

lemmas unfold_run =
  SummarizePlans_def Let_def NewRequest_POST Header_Set_def canonical_Authorization
  canonical_Content_Type canonical_HTTP_Referer builtRequest_def readSummary_def payload_def

lemma SummarizePlans_stages:
  "SummarizePlans w outs =
    (if outs = [] then ([], [LogDebug ''no terraform outputs to summarize'' []])
     else if Getenv (Environ w) openRouterAPIKeyEnv = [] then
       ([], [LogDebug ''OPENROUTER_API_KEY not set, skipping plan summarization'' []])
     else
       case json_Marshal w (payload w outs) of
         Inl err \<Rightarrow> ([], [LogWarn ''failed to marshal OpenRouter request: %s'' [ArgString err]])
       | Inr jd \<Rightarrow>
           (case http_NewRequest_err w ''POST'' openRouterURL of
              Some err \<Rightarrow>
                ([], [LogWarn ''failed to create OpenRouter request: %s'' [ArgString err]])
            | None \<Rightarrow>
                (case client_Do w openRouterTimeout
                        (builtRequest (Getenv (Environ w) openRouterAPIKeyEnv) jd) of
                   Inl err \<Rightarrow>
                     ([], [LogDebug ''sending plan to OpenRouter for summarization'' [],
                           HTTPDo openRouterTimeout
                             (builtRequest (Getenv (Environ w) openRouterAPIKeyEnv) jd),
                           LogWarn ''failed to send request to OpenRouter: %s'' [ArgString err]])
                 | Inr resp \<Rightarrow>
                     (fst (readSummary resp),
                      [LogDebug ''sending plan to OpenRouter for summarization'' [],
                       HTTPDo openRouterTimeout
                         (builtRequest (Getenv (Environ w) openRouterAPIKeyEnv) jd)]
                      @ snd (readSummary resp) @ [BodyClose]))))"
proof (cases "outs = []")
  case True
  then show ?thesis by (simp add: SummarizePlans_def)
next
  case outs: False
  show ?thesis
  proof (cases "Getenv (Environ w) openRouterAPIKeyEnv = []")
    case True
    with outs show ?thesis by (simp add: SummarizePlans_def)
  next
    case key: False
    show ?thesis
    proof (cases "json_Marshal w (payload w outs)")
      case (Inl err)
      with outs key show ?thesis by (simp add: unfold_run)
    next
      case jd: (Inr jd)
      show ?thesis
      proof (cases "http_NewRequest_err w ''POST'' openRouterURL")
        case (Some err)
        with outs key jd show ?thesis by (simp add: unfold_run)
      next
        case nr: None
        show ?thesis
        proof (cases "client_Do w openRouterTimeout
                        (builtRequest (Getenv (Environ w) openRouterAPIKeyEnv) jd)")
          case (Inl err)
          with outs key jd nr show ?thesis by (simp add: unfold_run)
        next
          case resp: (Inr resp)
          show ?thesis
          proof (cases "ReadAll resp")
            case (Inl err)
            with outs key jd nr resp show ?thesis by (simp add: unfold_run)
          next
            case body: (Inr body)
            show ?thesis
            proof (cases "StatusCode resp = 200")
              case False
              with outs key jd nr resp body show ?thesis by (simp add: unfold_run)
            next
              case ok: True
              show ?thesis
              proof (cases "Unmarshal body")
                case (Inl err)
                with outs key jd nr resp body ok show ?thesis by (simp add: unfold_run)
              next
                case r: (Inr r)
                show ?thesis
                proof (cases "Error r")
                  case (Some e)
                  with outs key jd nr resp body ok r show ?thesis by (simp add: unfold_run)
                next
                  case None
                  with outs key jd nr resp body ok r show ?thesis by (simp add: unfold_run)
                qed
              qed
            qed
          qed
        qed
      qed
    qed
  qed
qed

lemma requests_append: "requests (xs @ ys) = requests xs @ requests ys"
  by (induction xs rule: requests.induct) simp_all

lemma requests_readSummary: "requests (snd (readSummary resp)) = []"
  by (simp add: readSummary_def split: sum.split option.split)

text \<open>At most one request is handed to the client, and this is the one.\<close>

lemma requests_SummarizePlans:
  "requests (snd (SummarizePlans w outs)) =
    (if outs = [] \<or> Getenv (Environ w) openRouterAPIKeyEnv = [] then []
     else
       case json_Marshal w (payload w outs) of
         Inl err \<Rightarrow> []
       | Inr jd \<Rightarrow>
           (case http_NewRequest_err w ''POST'' openRouterURL of
              Some err \<Rightarrow> []
            | None \<Rightarrow> [builtRequest (Getenv (Environ w) openRouterAPIKeyEnv) jd]))"
  by (simp add: SummarizePlans_stages requests_append requests_readSummary
      split: sum.split option.split)

lemma sent_request:
  assumes "req \<in> set (requests (snd (SummarizePlans w outs)))"
  shows "outs \<noteq> []" and "Getenv (Environ w) openRouterAPIKeyEnv \<noteq> []"
    and "json_Marshal w (payload w outs) = Inr (Body req)"
    and "http_NewRequest_err w ''POST'' openRouterURL = None"
    and "req = builtRequest (Getenv (Environ w) openRouterAPIKeyEnv) (Body req)"
    and "requests (snd (SummarizePlans w outs)) = [req]"
proof -
  show outs: "outs \<noteq> []" and key: "Getenv (Environ w) openRouterAPIKeyEnv \<noteq> []"
    using assms by (auto simp: requests_SummarizePlans split: if_splits)
  obtain jd where jd: "json_Marshal w (payload w outs) = Inr jd"
    using assms outs key
    by (cases "json_Marshal w (payload w outs)") (auto simp: requests_SummarizePlans)
  show nr: "http_NewRequest_err w ''POST'' openRouterURL = None"
    using assms outs key jd
    by (cases "http_NewRequest_err w ''POST'' openRouterURL")
      (auto simp: requests_SummarizePlans)
  have req: "req = builtRequest (Getenv (Environ w) openRouterAPIKeyEnv) jd"
    using assms outs key jd nr by (simp add: requests_SummarizePlans)
  then have body: "Body req = jd" by (simp add: builtRequest_def)
  with jd show "json_Marshal w (payload w outs) = Inr (Body req)" by simp
  from req body show "req = builtRequest (Getenv (Environ w) openRouterAPIKeyEnv) (Body req)"
    by simp
  from req outs key jd nr show "requests (snd (SummarizePlans w outs)) = [req]"
    by (simp add: requests_SummarizePlans)
qed

text \<open>The result and the effects of a call that handed a request to the client.\<close>

lemma result_SummarizePlans:
  assumes "req \<in> set (requests (snd (SummarizePlans w outs)))"
  shows "SummarizePlans w outs =
    (case client_Do w openRouterTimeout req of
       Inl err \<Rightarrow>
         ([], [LogDebug ''sending plan to OpenRouter for summarization'' [],
               HTTPDo openRouterTimeout req,
               LogWarn ''failed to send request to OpenRouter: %s'' [ArgString err]])
     | Inr resp \<Rightarrow>
         (fst (readSummary resp),
          [LogDebug ''sending plan to OpenRouter for summarization'' [],
           HTTPDo openRouterTimeout req]
          @ snd (readSummary resp) @ [BodyClose]))"
proof -
  note s = sent_request [OF assms]
  have "SummarizePlans w outs =
    (case client_Do w openRouterTimeout
            (builtRequest (Getenv (Environ w) openRouterAPIKeyEnv) (Body req)) of
       Inl err \<Rightarrow>
         ([], [LogDebug ''sending plan to OpenRouter for summarization'' [],
               HTTPDo openRouterTimeout
                 (builtRequest (Getenv (Environ w) openRouterAPIKeyEnv) (Body req)),
               LogWarn ''failed to send request to OpenRouter: %s'' [ArgString err]])
     | Inr resp \<Rightarrow>
         (fst (readSummary resp),
          [LogDebug ''sending plan to OpenRouter for summarization'' [],
           HTTPDo openRouterTimeout
             (builtRequest (Getenv (Environ w) openRouterAPIKeyEnv) (Body req))]
          @ snd (readSummary resp) @ [BodyClose]))"
    by (simp add: SummarizePlans_stages [of w outs] s(1,2,3,4))
  then show ?thesis by (simp only: s(5) [symmetric])
qed

lemma result_without_request:
  assumes "requests (snd (SummarizePlans w outs)) = []"
  shows "fst (SummarizePlans w outs) = []"
proof (cases "outs = [] \<or> Getenv (Environ w) openRouterAPIKeyEnv = []")
  case True
  then show ?thesis by (auto simp: SummarizePlans_stages)
next
  case ne: False
  show ?thesis
  proof (cases "json_Marshal w (payload w outs)")
    case (Inl err)
    with ne show ?thesis by (simp add: SummarizePlans_stages)
  next
    case jd: (Inr jd)
    show ?thesis
    proof (cases "http_NewRequest_err w ''POST'' openRouterURL")
      case None
      with assms ne jd show ?thesis by (simp add: requests_SummarizePlans)
    next
      case (Some err)
      with ne jd show ?thesis by (simp add: SummarizePlans_stages)
    qed
  qed
qed


section \<open>Simulated worlds\<close>

text \<open>
  The examples below run \<open>SummarizePlans\<close> in a world with a given environment whose
  client answers every request with a given outcome.  \<open>renderPayload\<close> stands in for
  the JSON encoder there: the model, then role and content of each message.
\<close>

definition renderPayload :: "openRouterRequest \<Rightarrow> string" where
  "renderPayload p =
     Model p @ concat (map (\<lambda>m. ''|'' @ Role m @ '':'' @ Content m) (Messages p))"

definition simulated :: "environ \<Rightarrow> string + http_response \<Rightarrow> world" where
  "simulated env outcome =
     \<lparr>Environ = env,
      json_Marshal = (\<lambda>p. Inr (renderPayload p)),
      http_NewRequest_err = (\<lambda>method url. None),
      client_Do = (\<lambda>timeout req. outcome)\<rparr>"

lemma simulated_simps:
  "Environ (simulated env outcome) = env"
  "json_Marshal (simulated env outcome) p = Inr (renderPayload p)"
  "http_NewRequest_err (simulated env outcome) method url = None"
  "client_Do (simulated env outcome) timeout req = outcome"
  by (simp_all add: simulated_def)

lemmas env_eval =
  Getenv_def openRouterAPIKeyEnv_def openRouterSystemPromptEnv_def simulated_simps

lemmas json_eval =
  Unmarshal_def parseJSON_def tokenize.simps scan_string.simps push_def emit_def
  isSpaceJSON_def isDigit_def unescape_def step_def beginValue_def beginString_def
  endValue_def maxNestingDepth_def fieldIs_def foldName.simps zeroResponse_def zeroChoice_def
  zeroMessage_def zeroError_def byte_eval

lemmas trim_eval =
  TrimSpace_def TrimLeftSpace.simps TrimRightSpace.simps IsSpace_def DecodeRune.simps
  DecodeLastRune_def lastRuneWindow_def RuneStart_def Let_def

lemma simulated_request:
  "requests (snd (SummarizePlans (simulated [openRouterAPIKeyEnv \<mapsto> ''k''] outcome) [''planA''])) =
     [builtRequest ''k'' (''anthropic/claude-sonnet-4.5|system:'' @ defaultSystemPrompt @ ''|user:planA'')]"
  by (simp add: requests_SummarizePlans env_eval payload_def renderPayload_def)

section \<open>The properties of the specification\<close>

subsection \<open>C3: no input\<close>

text \<open>
  C3.  If the input sequence is empty, \<open>SummarizePlans\<close> returns the empty string at
  once, whatever the environment holds: its only effect is one line at debug level, and
  no request is handed to the HTTP client.
\<close>

theorem SummarizePlans_empty_input:
  "SummarizePlans w [] = ([], [LogDebug ''no terraform outputs to summarize'' []])
   \<and> requests (snd (SummarizePlans w [])) = []"
  by (simp add: SummarizePlans_def)

theorem SummarizePlans_empty_input_witness:
  "fst (SummarizePlans
     (simulated [openRouterAPIKeyEnv \<mapsto> ''k'']
        (Inr \<lparr>StatusCode = 200, ReadAll = Inr ''null''\<rparr>)) []) = []
   \<and> requests (snd (SummarizePlans
     (simulated [openRouterAPIKeyEnv \<mapsto> ''k'']
        (Inr \<lparr>StatusCode = 200, ReadAll = Inr ''null''\<rparr>)) [])) = []"
  using SummarizePlans_empty_input
    [of "simulated [openRouterAPIKeyEnv \<mapsto> ''k'']
           (Inr \<lparr>StatusCode = 200, ReadAll = Inr ''null''\<rparr>)"]
  by simp

subsection \<open>C2: no API key\<close>

text \<open>
  C2.  For every input sequence, if \<^verbatim>\<open>OPENROUTER_API_KEY\<close> is unset or set to the empty
  string, \<open>SummarizePlans\<close> returns the empty string and hands no request to the HTTP
  client.
\<close>

theorem SummarizePlans_no_api_key:
  assumes "Environ w openRouterAPIKeyEnv = None \<or> Environ w openRouterAPIKeyEnv = Some []"
  shows "fst (SummarizePlans w outs) = [] \<and> requests (snd (SummarizePlans w outs)) = []"
proof -
  from assms have "Getenv (Environ w) openRouterAPIKeyEnv = []"
    by (auto simp: Getenv_def)
  then show ?thesis
    by (simp add: SummarizePlans_stages)
qed

theorem SummarizePlans_no_api_key_witness:
  "fst (SummarizePlans
     (simulated Map.empty (Inr \<lparr>StatusCode = 200, ReadAll = Inr ''null''\<rparr>))
     [''planA'', ''planB'']) = []
   \<and> requests (snd (SummarizePlans
     (simulated Map.empty (Inr \<lparr>StatusCode = 200, ReadAll = Inr ''null''\<rparr>))
     [''planA'', ''planB''])) = []
   \<and> fst (SummarizePlans
     (simulated [openRouterAPIKeyEnv \<mapsto> []] (Inr \<lparr>StatusCode = 200, ReadAll = Inr ''null''\<rparr>))
     [''planA'']) = []
   \<and> requests (snd (SummarizePlans
     (simulated [openRouterAPIKeyEnv \<mapsto> []] (Inr \<lparr>StatusCode = 200, ReadAll = Inr ''null''\<rparr>))
     [''planA''])) = []"
  using
    SummarizePlans_no_api_key
      [of "simulated Map.empty (Inr \<lparr>StatusCode = 200, ReadAll = Inr ''null''\<rparr>)"
          "[''planA'', ''planB'']"]
    SummarizePlans_no_api_key
      [of "simulated [openRouterAPIKeyEnv \<mapsto> []]
             (Inr \<lparr>StatusCode = 200, ReadAll = Inr ''null''\<rparr>)"
          "[''planA'']"]
  by (simp add: simulated_simps)

subsection \<open>C1: every failure gives the empty string\<close>

text \<open>
  The failure categories of the specification, on the outcome of the HTTP exchange: the
  request could not be sent or timed out; the body could not be read; the status is
  not 200; the body is not the JSON of a response; the response carries an API error,
  has no choice, or its first choice has no content but white space.
\<close>

definition exchange_failed :: "string + http_response \<Rightarrow> bool" where
  "exchange_failed outcome =
    (case outcome of
       Inl err \<Rightarrow> True
     | Inr resp \<Rightarrow>
         (case ReadAll resp of
            Inl err \<Rightarrow> True
          | Inr body \<Rightarrow>
              StatusCode resp \<noteq> 200
              \<or> (case Unmarshal body of
                    Inl err \<Rightarrow> True
                  | Inr r \<Rightarrow>
                      Error r \<noteq> None \<or> Choices r = []
                      \<or> TrimSpace (Content (Message (Choices r ! 0))) = [])))"

lemma readSummary_failed:
  "exchange_failed (Inr resp) \<Longrightarrow> fst (readSummary resp) = []"
  by (auto simp: exchange_failed_def readSummary_def split: sum.splits option.splits)

text \<open>
  C1.  \<open>SummarizePlans\<close> is a total function to strings: it returns for every world and
  every input, and it has no way to raise an error.  Whenever it hands no request to the
  client, or the exchange for the request it hands over fails in any of the categories
  above, the result is the empty string.
\<close>

theorem SummarizePlans_failure_empty:
  assumes "requests (snd (SummarizePlans w outs)) = []
    \<or> (\<exists>req \<in> set (requests (snd (SummarizePlans w outs))).
          exchange_failed (client_Do w openRouterTimeout req))"
  shows "fst (SummarizePlans w outs) = []"
  using assms
proof
  assume "requests (snd (SummarizePlans w outs)) = []"
  then show ?thesis by (rule result_without_request)
next
  assume "\<exists>req \<in> set (requests (snd (SummarizePlans w outs))).
            exchange_failed (client_Do w openRouterTimeout req)"
  then obtain req where
    req: "req \<in> set (requests (snd (SummarizePlans w outs)))" and
    failed: "exchange_failed (client_Do w openRouterTimeout req)"
    by blast
  show ?thesis
  proof (cases "client_Do w openRouterTimeout req")
    case (Inl err)
    then show ?thesis by (simp add: result_SummarizePlans [OF req])
  next
    case (Inr resp)
    with failed have "fst (readSummary resp) = []"
      by (simp add: readSummary_failed)
    with Inr show ?thesis by (simp add: result_SummarizePlans [OF req])
  qed
qed

lemma Unmarshal_not_JSON: "Unmarshal ''<html>'' = Inl SyntaxError"
  by (simp add: json_eval)

text \<open>
  A simulated HTTP 500 response; a simulated timeout; a simulated response of status 200
  whose body is not JSON.
\<close>

theorem SummarizePlans_failure_empty_witness:
  "requests (snd (SummarizePlans
      (simulated [openRouterAPIKeyEnv \<mapsto> ''k'']
         (Inr \<lparr>StatusCode = 500, ReadAll = Inr ''Internal Server Error''\<rparr>))
      [''planA''])) \<noteq> []
   \<and> fst (SummarizePlans
      (simulated [openRouterAPIKeyEnv \<mapsto> ''k'']
         (Inr \<lparr>StatusCode = 500, ReadAll = Inr ''Internal Server Error''\<rparr>))
      [''planA'']) = []
   \<and> requests (snd (SummarizePlans
      (simulated [openRouterAPIKeyEnv \<mapsto> ''k''] (Inl ''context deadline exceeded''))
      [''planA''])) \<noteq> []
   \<and> fst (SummarizePlans
      (simulated [openRouterAPIKeyEnv \<mapsto> ''k''] (Inl ''context deadline exceeded''))
      [''planA'']) = []
   \<and> requests (snd (SummarizePlans
      (simulated [openRouterAPIKeyEnv \<mapsto> ''k'']
         (Inr \<lparr>StatusCode = 200, ReadAll = Inr ''<html>''\<rparr>))
      [''planA''])) \<noteq> []
   \<and> fst (SummarizePlans
      (simulated [openRouterAPIKeyEnv \<mapsto> ''k'']
         (Inr \<lparr>StatusCode = 200, ReadAll = Inr ''<html>''\<rparr>))
      [''planA'']) = []"
proof -
  let ?w500 = "simulated [openRouterAPIKeyEnv \<mapsto> ''k'']
         (Inr \<lparr>StatusCode = 500, ReadAll = Inr ''Internal Server Error''\<rparr>)"
  let ?wT = "simulated [openRouterAPIKeyEnv \<mapsto> ''k''] (Inl ''context deadline exceeded'')"
  let ?wH = "simulated [openRouterAPIKeyEnv \<mapsto> ''k'']
         (Inr \<lparr>StatusCode = 200, ReadAll = Inr ''<html>''\<rparr>)"
  let ?req = "builtRequest ''k''
    (''anthropic/claude-sonnet-4.5|system:'' @ defaultSystemPrompt @ ''|user:planA'')"
  have r500: "requests (snd (SummarizePlans ?w500 [''planA''])) = [?req]"
    and rT: "requests (snd (SummarizePlans ?wT [''planA''])) = [?req]"
    and rH: "requests (snd (SummarizePlans ?wH [''planA''])) = [?req]"
    by (simp_all only: simulated_request)
  have "fst (SummarizePlans ?w500 [''planA'']) = []"
    by (rule SummarizePlans_failure_empty)
      (simp add: r500 simulated_simps exchange_failed_def)
  moreover have "fst (SummarizePlans ?wT [''planA'']) = []"
    by (rule SummarizePlans_failure_empty)
      (simp add: rT simulated_simps exchange_failed_def)
  moreover have "fst (SummarizePlans ?wH [''planA'']) = []"
    by (rule SummarizePlans_failure_empty)
      (simp add: rH simulated_simps exchange_failed_def Unmarshal_not_JSON)
  ultimately show ?thesis by (simp add: r500 rT rH)
qed

subsection \<open>C4, C5, C6: the payload\<close>

text \<open>
  \<^verbatim>\<open>strings.Join\<close> on a sequence that is not empty: every element but the last, each
  followed by the separator, and then the last element.
\<close>

lemma Join_concat:
  "elems \<noteq> [] \<Longrightarrow> Join elems sep = concat (map (\<lambda>e. e @ sep) (butlast elems)) @ last elems"
  by (induction elems sep rule: Join.induct) simp_all

text \<open>
  C4.  The body of a request that \<open>SummarizePlans\<close> hands to the client is the encoding
  of a payload whose second message has the role \<open>user\<close>, and its content is the input
  texts in their order, the separator (two line feeds, three hyphens, two line feeds)
  after each of them but the last.  For the inputs \<open>planA\<close>, \<open>planB\<close> it is
  \<open>planA\<close>, the separator, \<open>planB\<close>, with no space.
\<close>

theorem user_message_joins_plans:
  assumes "req \<in> set (requests (snd (SummarizePlans w outs)))"
  shows "outs \<noteq> []
    \<and> (\<exists>p. json_Marshal w p = Inr (Body req)
          \<and> length (Messages p) = 2
          \<and> Role (Messages p ! 1) = ''user''
          \<and> Content (Messages p ! 1) =
              concat (map (\<lambda>e. e @ ''\<newline>\<newline>---\<newline>\<newline>'') (butlast outs)) @ last outs)"
proof -
  note s = sent_request [OF assms]
  from s(1) have "Content (Messages (payload w outs) ! 1) =
      concat (map (\<lambda>e. e @ ''\<newline>\<newline>---\<newline>\<newline>'') (butlast outs)) @ last outs"
    by (simp add: payload_def Join_concat)
  moreover have "length (Messages (payload w outs)) = 2"
    and "Role (Messages (payload w outs) ! 1) = ''user''"
    by (simp_all add: payload_def)
  ultimately show ?thesis using s(1,3) by blast
qed

theorem user_message_joins_plans_witness:
  "requests (snd (SummarizePlans
      (simulated [openRouterAPIKeyEnv \<mapsto> ''k'', openRouterSystemPromptEnv \<mapsto> ''X'']
         (Inl ''no route to host''))
      [''planA'', ''planB''])) =
     [builtRequest ''k''
        ''anthropic/claude-sonnet-4.5|system:X|user:planA\<newline>\<newline>---\<newline>\<newline>planB'']
   \<and> (\<exists>p. renderPayload p =
            ''anthropic/claude-sonnet-4.5|system:X|user:planA\<newline>\<newline>---\<newline>\<newline>planB''
          \<and> length (Messages p) = 2
          \<and> Role (Messages p ! 1) = ''user''
          \<and> Content (Messages p ! 1) = ''planA\<newline>\<newline>---\<newline>\<newline>planB'')"
proof -
  let ?w = "simulated [openRouterAPIKeyEnv \<mapsto> ''k'', openRouterSystemPromptEnv \<mapsto> ''X'']
         (Inl ''no route to host'')"
  let ?req = "builtRequest ''k''
        ''anthropic/claude-sonnet-4.5|system:X|user:planA\<newline>\<newline>---\<newline>\<newline>planB''"
  have r: "requests (snd (SummarizePlans ?w [''planA'', ''planB''])) = [?req]"
    by (simp add: requests_SummarizePlans env_eval payload_def renderPayload_def)
  then have "?req \<in> set (requests (snd (SummarizePlans ?w [''planA'', ''planB''])))"
    by simp
  from user_message_joins_plans [OF this] r show ?thesis
    by (simp add: simulated_simps builtRequest_def)
qed


text \<open>
  C5.  The body of a request that \<open>SummarizePlans\<close> hands to the client is the encoding
  of a payload whose first message has the role \<open>system\<close>; its content is the value of
  \<^verbatim>\<open>OPENROUTER_TERRAFORM_PLAN_SUMMARIZER_SYSTEM_PROMPT\<close> when that variable is set to a
  string that is not empty, and the fixed default prompt when it is unset or empty.
\<close>

theorem system_message_prompt:
  assumes "req \<in> set (requests (snd (SummarizePlans w outs)))"
  shows "\<exists>p. json_Marshal w p = Inr (Body req)
    \<and> Role (Messages p ! 0) = ''system''
    \<and> Content (Messages p ! 0) =
        (case Environ w openRouterSystemPromptEnv of
           None \<Rightarrow> defaultSystemPrompt
         | Some x \<Rightarrow> if x = [] then defaultSystemPrompt else x)"
proof -
  note s = sent_request [OF assms]
  have "Role (Messages (payload w outs) ! 0) = ''system''"
    by (simp add: payload_def)
  moreover have "Content (Messages (payload w outs) ! 0) =
        (case Environ w openRouterSystemPromptEnv of
           None \<Rightarrow> defaultSystemPrompt
         | Some x \<Rightarrow> if x = [] then defaultSystemPrompt else x)"
    by (simp add: payload_def Getenv_def split: option.split)
  ultimately show ?thesis using s(3) by blast
qed

theorem system_message_prompt_witness:
  "(\<exists>p. renderPayload p = ''anthropic/claude-sonnet-4.5|system:X|user:planA''
        \<and> Role (Messages p ! 0) = ''system'' \<and> Content (Messages p ! 0) = ''X'')
   \<and> (\<exists>p. renderPayload p =
            ''anthropic/claude-sonnet-4.5|system:'' @ defaultSystemPrompt @ ''|user:planA''
        \<and> Role (Messages p ! 0) = ''system''
        \<and> Content (Messages p ! 0) = defaultSystemPrompt)"
proof -
  let ?wX = "simulated [openRouterAPIKeyEnv \<mapsto> ''k'', openRouterSystemPromptEnv \<mapsto> ''X'']
         (Inl ''no route to host'')"
  let ?wD = "simulated [openRouterAPIKeyEnv \<mapsto> ''k''] (Inl ''no route to host'')"
  let ?reqX = "builtRequest ''k'' ''anthropic/claude-sonnet-4.5|system:X|user:planA''"
  let ?reqD = "builtRequest ''k''
    (''anthropic/claude-sonnet-4.5|system:'' @ defaultSystemPrompt @ ''|user:planA'')"
  have "requests (snd (SummarizePlans ?wX [''planA''])) = [?reqX]"
    by (simp add: requests_SummarizePlans env_eval payload_def renderPayload_def)
  then have X: "?reqX \<in> set (requests (snd (SummarizePlans ?wX [''planA''])))"
    by simp
  have "requests (snd (SummarizePlans ?wD [''planA''])) = [?reqD]"
    by (simp add: requests_SummarizePlans env_eval payload_def renderPayload_def)
  then have D: "?reqD \<in> set (requests (snd (SummarizePlans ?wD [''planA''])))"
    by simp
  from system_message_prompt [OF X] system_message_prompt [OF D] show ?thesis
    by (simp add: env_eval builtRequest_def)
qed

text \<open>
  C6.  The body of a request that \<open>SummarizePlans\<close> hands to the client is the encoding
  of a payload with the model \<^verbatim>\<open>anthropic/claude-sonnet-4.5\<close> and exactly two messages:
  first one with the role \<open>system\<close>, the resolved system prompt its content, then one
  with the role \<open>user\<close>, the joined input texts its content.
\<close>

theorem request_payload_shape:
  assumes "req \<in> set (requests (snd (SummarizePlans w outs)))"
  shows "\<exists>p. json_Marshal w p = Inr (Body req)
    \<and> Model p = ''anthropic/claude-sonnet-4.5''
    \<and> Messages p =
        [\<lparr>Role = ''system'',
          Content =
            (if Getenv (Environ w) openRouterSystemPromptEnv = [] then defaultSystemPrompt
             else Getenv (Environ w) openRouterSystemPromptEnv)\<rparr>,
         \<lparr>Role = ''user'', Content = Join outs ''\<newline>\<newline>---\<newline>\<newline>''\<rparr>]"
proof -
  note s = sent_request [OF assms]
  have "Model (payload w outs) = ''anthropic/claude-sonnet-4.5''"
    by (simp add: payload_def)
  moreover have "Messages (payload w outs) =
        [\<lparr>Role = ''system'',
          Content =
            (if Getenv (Environ w) openRouterSystemPromptEnv = [] then defaultSystemPrompt
             else Getenv (Environ w) openRouterSystemPromptEnv)\<rparr>,
         \<lparr>Role = ''user'', Content = Join outs ''\<newline>\<newline>---\<newline>\<newline>''\<rparr>]"
    by (simp add: payload_def)
  ultimately show ?thesis using s(3) by blast
qed

theorem request_payload_shape_witness:
  "\<exists>p. renderPayload p =
      ''anthropic/claude-sonnet-4.5|system:X|user:planA\<newline>\<newline>---\<newline>\<newline>planB''
    \<and> Model p = ''anthropic/claude-sonnet-4.5''
    \<and> Messages p =
        [\<lparr>Role = ''system'', Content = ''X''\<rparr>,
         \<lparr>Role = ''user'', Content = ''planA\<newline>\<newline>---\<newline>\<newline>planB''\<rparr>]"
proof -
  let ?w = "simulated [openRouterAPIKeyEnv \<mapsto> ''k'', openRouterSystemPromptEnv \<mapsto> ''X'']
         (Inl ''no route to host'')"
  let ?req = "builtRequest ''k''
        ''anthropic/claude-sonnet-4.5|system:X|user:planA\<newline>\<newline>---\<newline>\<newline>planB''"
  have "requests (snd (SummarizePlans ?w [''planA'', ''planB''])) = [?req]"
    by (simp add: requests_SummarizePlans env_eval payload_def renderPayload_def)
  then have "?req \<in> set (requests (snd (SummarizePlans ?w [''planA'', ''planB''])))"
    by simp
  from request_payload_shape [OF this] show ?thesis
    by (simp add: env_eval builtRequest_def)
qed

subsection \<open>C9: a key of white space\<close>

text \<open>
  C9.  The key is compared with the empty string and with nothing else.  Whenever the
  input is not empty and \<^verbatim>\<open>OPENROUTER_API_KEY\<close> is set to a string that is not empty, a
  single space for instance, and the payload and the request can be built, \<open>SummarizePlans\<close>
  hands one request to the client, whose \<^verbatim>\<open>Authorization\<close> header is \<^verbatim>\<open>Bearer\<close>,
  a space, and the key as it is.
\<close>

theorem nonempty_api_key_is_sent:
  assumes "outs \<noteq> []"
    and "Environ w openRouterAPIKeyEnv = Some key" and "key \<noteq> []"
    and "\<forall>p. \<exists>jsonData. json_Marshal w p = Inr jsonData"
    and "http_NewRequest_err w ''POST'' openRouterURL = None"
  shows "\<exists>req. requests (snd (SummarizePlans w outs)) = [req]
    \<and> Header req ''Authorization'' = Some [''Bearer '' @ key]"
proof -
  from assms(2) have key: "Getenv (Environ w) openRouterAPIKeyEnv = key"
    by (simp add: Getenv_def)
  from assms(4) obtain jd where jd: "json_Marshal w (payload w outs) = Inr jd"
    by blast
  have "requests (snd (SummarizePlans w outs)) = [builtRequest key jd]"
    using assms(1,3,5) key jd by (simp add: requests_SummarizePlans)
  moreover have "Header (builtRequest key jd) ''Authorization'' = Some [''Bearer '' @ key]"
    by (simp add: builtRequest_def)
  ultimately show ?thesis by simp
qed

theorem nonempty_api_key_is_sent_witness:
  "\<exists>req. requests (snd (SummarizePlans
        (simulated [openRouterAPIKeyEnv \<mapsto> '' ''] (Inl ''no route to host'')) [''planA''])) = [req]
    \<and> Header req ''Authorization'' = Some [''Bearer  '']"
  using nonempty_api_key_is_sent
    [of "[''planA'']" "simulated [openRouterAPIKeyEnv \<mapsto> '' ''] (Inl ''no route to host'')"
        "'' ''"]
  by (simp add: simulated_simps)

subsection \<open>C7, C8, C10: reading a response with status 200\<close>

text \<open>
  What \<open>SummarizePlans\<close> returns and does when the client answers its request with a
  response of status 200 whose body can be read and decodes as a response.
\<close>

lemma decoded_response:
  assumes "req \<in> set (requests (snd (SummarizePlans w outs)))"
    and "client_Do w openRouterTimeout req = Inr resp"
    and "StatusCode resp = 200" and "ReadAll resp = Inr body"
    and "Unmarshal body = Inr r"
  shows "SummarizePlans w outs =
    (case Error r of
       Some e \<Rightarrow>
         ([], [LogDebug ''sending plan to OpenRouter for summarization'' [],
               HTTPDo openRouterTimeout req,
               LogWarn ''OpenRouter API error: %s (type: %s)''
                 [ArgString (openRouterError.Message e), ArgString (Type e)],
               BodyClose])
     | None \<Rightarrow>
         if Choices r = [] then
           ([], [LogDebug ''sending plan to OpenRouter for summarization'' [],
                 HTTPDo openRouterTimeout req,
                 LogWarn ''OpenRouter response contained no choices'' [],
                 BodyClose])
         else if TrimSpace (Content (Message (Choices r ! 0))) = [] then
           ([], [LogDebug ''sending plan to OpenRouter for summarization'' [],
                 HTTPDo openRouterTimeout req,
                 LogWarn ''OpenRouter returned empty summary'' [],
                 BodyClose])
         else
           (TrimSpace (Content (Message (Choices r ! 0))),
            [LogDebug ''sending plan to OpenRouter for summarization'' [],
             HTTPDo openRouterTimeout req,
             LogDebug ''successfully received summary from OpenRouter'' [],
             BodyClose]))"
  using assms(2-5)
  by (simp add: result_SummarizePlans [OF assms(1)] readSummary_def split: option.split)

text \<open>
  C7.  When the response of status 200 decodes: if its error is present, \<open>SummarizePlans\<close>
  returns the empty string and logs the API error, whatever the choices are; if its
  error is absent and it has no choice, \<open>SummarizePlans\<close> returns the empty string and
  logs that there is no choice.
\<close>

theorem api_error_before_choices:
  assumes "req \<in> set (requests (snd (SummarizePlans w outs)))"
    and "client_Do w openRouterTimeout req = Inr resp"
    and "StatusCode resp = 200" and "ReadAll resp = Inr body"
    and "Unmarshal body = Inr r"
  shows "(\<forall>e. Error r = Some e \<longrightarrow>
            SummarizePlans w outs =
              ([], [LogDebug ''sending plan to OpenRouter for summarization'' [],
                    HTTPDo openRouterTimeout req,
                    LogWarn ''OpenRouter API error: %s (type: %s)''
                      [ArgString (openRouterError.Message e), ArgString (Type e)],
                    BodyClose]))
    \<and> (Error r = None \<and> Choices r = [] \<longrightarrow>
            SummarizePlans w outs =
              ([], [LogDebug ''sending plan to OpenRouter for summarization'' [],
                    HTTPDo openRouterTimeout req,
                    LogWarn ''OpenRouter response contained no choices'' [],
                    BodyClose]))"
  by (simp add: decoded_response [OF assms])

lemma Unmarshal_error_and_choices:
  \<open>Unmarshal ''{"error":{"message":"bad key","type":"auth"},"choices":[{"message":{"role":"assistant","content":"Summary text."}}]}'' =
     Inr \<lparr>Choices = [\<lparr>Message = \<lparr>Role = ''assistant'', Content = ''Summary text.''\<rparr>\<rparr>],
          Error = Some \<lparr>openRouterError.Message = ''bad key'', Type = ''auth''\<rparr>\<rparr>\<close>
  by (simp add: json_eval)

lemma Unmarshal_no_choices:
  \<open>Unmarshal ''{"choices":[],"error":null}'' = Inr \<lparr>Choices = [], Error = None\<rparr>\<close>
  by (simp add: json_eval)

text \<open>
  A simulated response with an error and a choice, and one with neither.
\<close>

theorem api_error_before_choices_witness:
  \<open>fst (SummarizePlans
      (simulated [openRouterAPIKeyEnv \<mapsto> ''k'']
         (Inr \<lparr>StatusCode = 200,
               ReadAll = Inr ''{"error":{"message":"bad key","type":"auth"},"choices":[{"message":{"role":"assistant","content":"Summary text."}}]}''\<rparr>))
      [''planA'']) = []
   \<and> LogWarn ''OpenRouter API error: %s (type: %s)'' [ArgString ''bad key'', ArgString ''auth'']
       \<in> set (snd (SummarizePlans
      (simulated [openRouterAPIKeyEnv \<mapsto> ''k'']
         (Inr \<lparr>StatusCode = 200,
               ReadAll = Inr ''{"error":{"message":"bad key","type":"auth"},"choices":[{"message":{"role":"assistant","content":"Summary text."}}]}''\<rparr>))
      [''planA'']))
   \<and> fst (SummarizePlans
      (simulated [openRouterAPIKeyEnv \<mapsto> ''k'']
         (Inr \<lparr>StatusCode = 200, ReadAll = Inr ''{"choices":[],"error":null}''\<rparr>))
      [''planA'']) = []
   \<and> LogWarn ''OpenRouter response contained no choices'' []
       \<in> set (snd (SummarizePlans
      (simulated [openRouterAPIKeyEnv \<mapsto> ''k'']
         (Inr \<lparr>StatusCode = 200, ReadAll = Inr ''{"choices":[],"error":null}''\<rparr>))
      [''planA'']))\<close>
proof -
  let ?b1 = \<open>''{"error":{"message":"bad key","type":"auth"},"choices":[{"message":{"role":"assistant","content":"Summary text."}}]}''\<close>
  let ?b2 = \<open>''{"choices":[],"error":null}''\<close>
  let ?w1 = "simulated [openRouterAPIKeyEnv \<mapsto> ''k''] (Inr \<lparr>StatusCode = 200, ReadAll = Inr ?b1\<rparr>)"
  let ?w2 = "simulated [openRouterAPIKeyEnv \<mapsto> ''k''] (Inr \<lparr>StatusCode = 200, ReadAll = Inr ?b2\<rparr>)"
  let ?req = "builtRequest ''k''
    (''anthropic/claude-sonnet-4.5|system:'' @ defaultSystemPrompt @ ''|user:planA'')"
  have r1: "?req \<in> set (requests (snd (SummarizePlans ?w1 [''planA''])))"
    by (simp only: simulated_request list.set insertI1)
  have r2: "?req \<in> set (requests (snd (SummarizePlans ?w2 [''planA''])))"
    by (simp only: simulated_request list.set insertI1)
  have d1: "client_Do ?w1 openRouterTimeout ?req = Inr \<lparr>StatusCode = 200, ReadAll = Inr ?b1\<rparr>"
    by (simp only: simulated_simps)
  have d2: "client_Do ?w2 openRouterTimeout ?req = Inr \<lparr>StatusCode = 200, ReadAll = Inr ?b2\<rparr>"
    by (simp only: simulated_simps)
  have s1: "SummarizePlans ?w1 [''planA''] =
      ([], [LogDebug ''sending plan to OpenRouter for summarization'' [],
            HTTPDo openRouterTimeout ?req,
            LogWarn ''OpenRouter API error: %s (type: %s)''
              [ArgString ''bad key'', ArgString ''auth''],
            BodyClose])"
    using api_error_before_choices [OF r1 d1 _ _ Unmarshal_error_and_choices] by simp
  have s2: "SummarizePlans ?w2 [''planA''] =
      ([], [LogDebug ''sending plan to OpenRouter for summarization'' [],
            HTTPDo openRouterTimeout ?req,
            LogWarn ''OpenRouter response contained no choices'' [],
            BodyClose])"
    using api_error_before_choices [OF r2 d2 _ _ Unmarshal_no_choices] by simp
  show ?thesis
    by (simp only: s1 s2 fst_conv snd_conv list.set insertI1 insertI2 simp_thms)
qed


text \<open>
  A JSON \<open>null\<close>, or an object none of whose keys selects \<open>choices\<close> or \<open>error\<close>,
  decodes without an error to the zero response.
\<close>

lemma decodeResponseFields_no_field:
  "\<forall>kv \<in> set kvs. \<not> fieldIs (fst kv) ''choices'' \<and> \<not> fieldIs (fst kv) ''error''
   \<Longrightarrow> decodeResponseFields kvs r = Inr r"
  by (induction kvs arbitrary: r) simp_all

lemma Unmarshal_omitted_fields:
  assumes "parseJSON body = Some JNull
    \<or> (\<exists>kvs. parseJSON body = Some (JObject kvs)
          \<and> (\<forall>kv \<in> set kvs. \<not> fieldIs (fst kv) ''choices'' \<and> \<not> fieldIs (fst kv) ''error''))"
  shows "Unmarshal body = Inr \<lparr>Choices = [], Error = None\<rparr>"
  using assms
  by (auto simp: Unmarshal_def zeroResponse_def decodeResponseFields_no_field)

text \<open>
  Any other JSON value at the top (an array, a string, a number, a boolean) is of the
  wrong kind for the structure: \<^verbatim>\<open>Unmarshal\<close> returns an error for it.
\<close>

lemma Unmarshal_other_value:
  assumes "parseJSON body = Some v" and "v \<noteq> JNull" and "\<forall>kvs. v \<noteq> JObject kvs"
  shows "Unmarshal body = Inl UnmarshalTypeError"
  using assms by (cases v) (simp_all add: Unmarshal_def)

text \<open>
  C10, as amended.  When the body of a response of status 200 is the JSON \<^verbatim>\<open>null\<close>, or
  a JSON object none of whose keys selects \<open>choices\<close> or \<open>error\<close> (\<^verbatim>\<open>{}\<close>, for
  instance), decoding succeeds, with no error and no choice, and \<open>SummarizePlans\<close>
  returns the empty string through the branch for a response without choices (it logs
  that, not a parse failure).
\<close>

theorem omitted_fields_are_no_parse_failure:
  assumes "req \<in> set (requests (snd (SummarizePlans w outs)))"
    and "client_Do w openRouterTimeout req = Inr resp"
    and "StatusCode resp = 200" and "ReadAll resp = Inr body"
    and "parseJSON body = Some JNull
      \<or> (\<exists>kvs. parseJSON body = Some (JObject kvs)
            \<and> (\<forall>kv \<in> set kvs. \<not> fieldIs (fst kv) ''choices'' \<and> \<not> fieldIs (fst kv) ''error''))"
  shows "Unmarshal body = Inr \<lparr>Choices = [], Error = None\<rparr>
    \<and> SummarizePlans w outs =
        ([], [LogDebug ''sending plan to OpenRouter for summarization'' [],
              HTTPDo openRouterTimeout req,
              LogWarn ''OpenRouter response contained no choices'' [],
              BodyClose])"
proof -
  have u: "Unmarshal body = Inr \<lparr>Choices = [], Error = None\<rparr>"
    using assms(5) by (rule Unmarshal_omitted_fields)
  show ?thesis
    by (simp add: u decoded_response [OF assms(1-4) u])
qed

lemma parseJSON_empty_object: \<open>parseJSON ''{}'' = Some (JObject [])\<close>
  by (simp add: json_eval)

lemma parseJSON_null: \<open>parseJSON ''null'' = Some JNull\<close>
  by (simp add: json_eval)

theorem omitted_fields_are_no_parse_failure_witness:
  \<open>Unmarshal ''{}'' = Inr \<lparr>Choices = [], Error = None\<rparr>
   \<and> SummarizePlans
        (simulated [openRouterAPIKeyEnv \<mapsto> ''k'']
           (Inr \<lparr>StatusCode = 200, ReadAll = Inr ''{}''\<rparr>)) [''planA''] =
      ([], [LogDebug ''sending plan to OpenRouter for summarization'' [],
            HTTPDo openRouterTimeout
              (builtRequest ''k''
                 (''anthropic/claude-sonnet-4.5|system:'' @ defaultSystemPrompt @ ''|user:planA'')),
            LogWarn ''OpenRouter response contained no choices'' [],
            BodyClose])
   \<and> Unmarshal ''null'' = Inr \<lparr>Choices = [], Error = None\<rparr>
   \<and> SummarizePlans
        (simulated [openRouterAPIKeyEnv \<mapsto> ''k'']
           (Inr \<lparr>StatusCode = 200, ReadAll = Inr ''null''\<rparr>)) [''planA''] =
      ([], [LogDebug ''sending plan to OpenRouter for summarization'' [],
            HTTPDo openRouterTimeout
              (builtRequest ''k''
                 (''anthropic/claude-sonnet-4.5|system:'' @ defaultSystemPrompt @ ''|user:planA'')),
            LogWarn ''OpenRouter response contained no choices'' [],
            BodyClose])\<close>
proof -
  let ?w1 = "simulated [openRouterAPIKeyEnv \<mapsto> ''k''] (Inr \<lparr>StatusCode = 200, ReadAll = Inr ''{}''\<rparr>)"
  let ?w2 = "simulated [openRouterAPIKeyEnv \<mapsto> ''k''] (Inr \<lparr>StatusCode = 200, ReadAll = Inr ''null''\<rparr>)"
  let ?req = "builtRequest ''k''
    (''anthropic/claude-sonnet-4.5|system:'' @ defaultSystemPrompt @ ''|user:planA'')"
  have r1: "?req \<in> set (requests (snd (SummarizePlans ?w1 [''planA''])))"
    by (simp only: simulated_request list.set insertI1)
  have r2: "?req \<in> set (requests (snd (SummarizePlans ?w2 [''planA''])))"
    by (simp only: simulated_request list.set insertI1)
  have d1: "client_Do ?w1 openRouterTimeout ?req = Inr \<lparr>StatusCode = 200, ReadAll = Inr ''{}''\<rparr>"
    by (simp only: simulated_simps)
  have d2: "client_Do ?w2 openRouterTimeout ?req = Inr \<lparr>StatusCode = 200, ReadAll = Inr ''null''\<rparr>"
    by (simp only: simulated_simps)
  have p1: "parseJSON ''{}'' = Some JNull
      \<or> (\<exists>kvs. parseJSON ''{}'' = Some (JObject kvs)
            \<and> (\<forall>kv \<in> set kvs. \<not> fieldIs (fst kv) ''choices'' \<and> \<not> fieldIs (fst kv) ''error''))"
    by (simp add: parseJSON_empty_object)
  have p2: "parseJSON ''null'' = Some JNull
      \<or> (\<exists>kvs. parseJSON ''null'' = Some (JObject kvs)
            \<and> (\<forall>kv \<in> set kvs. \<not> fieldIs (fst kv) ''choices'' \<and> \<not> fieldIs (fst kv) ''error''))"
    by (simp add: parseJSON_null)
  from omitted_fields_are_no_parse_failure [OF r1 d1 _ _ p1]
    omitted_fields_are_no_parse_failure [OF r2 d2 _ _ p2]
  show ?thesis by simp
qed

lemma Unmarshal_empty_array: "Unmarshal ''[]'' = Inl UnmarshalTypeError"
  by (simp add: json_eval)

text \<open>
  C10, as it was stated, for every body that is valid JSON and has neither field: it
  fails for the body \<^verbatim>\<open>[]\<close>.  This is valid JSON (the scanner accepts it as the empty
  array) with neither a \<open>choices\<close> nor an \<open>error\<close> field, yet decoding it into the
  response structure is an error, and \<open>SummarizePlans\<close> returns the empty string through
  the branch for a parse failure: it logs that the response could not be parsed, not that
  there is no choice.
\<close>

theorem omitted_fields_array_counterexample:
  "parseJSON ''[]'' = Some (JArray [])
   \<and> Unmarshal ''[]'' = Inl UnmarshalTypeError
   \<and> SummarizePlans
        (simulated [openRouterAPIKeyEnv \<mapsto> ''k'']
           (Inr \<lparr>StatusCode = 200, ReadAll = Inr ''[]''\<rparr>)) [''planA''] =
      ([], [LogDebug ''sending plan to OpenRouter for summarization'' [],
            HTTPDo openRouterTimeout
              (builtRequest ''k''
                 (''anthropic/claude-sonnet-4.5|system:'' @ defaultSystemPrompt @ ''|user:planA'')),
            LogWarn ''failed to parse OpenRouter response: %s'' [ArgError UnmarshalTypeError],
            BodyClose])"
proof -
  let ?w = "simulated [openRouterAPIKeyEnv \<mapsto> ''k''] (Inr \<lparr>StatusCode = 200, ReadAll = Inr ''[]''\<rparr>)"
  let ?req = "builtRequest ''k''
    (''anthropic/claude-sonnet-4.5|system:'' @ defaultSystemPrompt @ ''|user:planA'')"
  have p: "parseJSON ''[]'' = Some (JArray [])"
    by (simp add: json_eval)
  have r: "?req \<in> set (requests (snd (SummarizePlans ?w [''planA''])))"
    by (simp only: simulated_request list.set insertI1)
  have "SummarizePlans ?w [''planA''] =
      ([], [LogDebug ''sending plan to OpenRouter for summarization'' [],
            HTTPDo openRouterTimeout ?req,
            LogWarn ''failed to parse OpenRouter response: %s'' [ArgError UnmarshalTypeError],
            BodyClose])"
    by (simp add: result_SummarizePlans [OF r] simulated_simps readSummary_def
        Unmarshal_empty_array)
  with p Unmarshal_empty_array show ?thesis by simp
qed

text \<open>
  C8.  When the response of status 200 decodes with no error and at least one choice,
  \<open>SummarizePlans\<close> returns the content of the message of the first choice with the
  white space around it trimmed (the empty string when nothing else is left): the
  content is the result between the encodings of two sequences of white-space runes,
  and the result neither starts nor ends with the encoding of a white-space rune.
\<close>

theorem summary_is_trimmed_content:
  assumes "req \<in> set (requests (snd (SummarizePlans w outs)))"
    and "client_Do w openRouterTimeout req = Inr resp"
    and "StatusCode resp = 200" and "ReadAll resp = Inr body"
    and "Unmarshal body = Inr r"
    and "Error r = None" and "Choices r \<noteq> []"
  shows "fst (SummarizePlans w outs) = TrimSpace (Content (Message (Choices r ! 0)))
    \<and> (\<exists>rs1 rs2. list_all IsSpace rs1 \<and> list_all IsSpace rs2
          \<and> Content (Message (Choices r ! 0)) =
              concat (map EncodeRune rs1) @ fst (SummarizePlans w outs)
                @ concat (map EncodeRune rs2))
    \<and> (\<forall>ws t. IsSpace ws \<longrightarrow>
          fst (SummarizePlans w outs) \<noteq> EncodeRune ws @ t
          \<and> fst (SummarizePlans w outs) \<noteq> t @ EncodeRune ws)"
proof -
  have "fst (SummarizePlans w outs) = TrimSpace (Content (Message (Choices r ! 0)))"
    using assms(6,7) by (simp add: decoded_response [OF assms(1-5)])
  then show ?thesis
    using TrimSpace_removes [of "Content (Message (Choices r ! 0))"]
      TrimSpace_maximal [of _ "Content (Message (Choices r ! 0))"]
    by simp
qed

lemma Unmarshal_summary:
  \<open>Unmarshal ''{"choices":[{"message":{"role":"assistant","content":"  Summary text.  "}}]}'' =
     Inr \<lparr>Choices = [\<lparr>Message = \<lparr>Role = ''assistant'', Content = ''  Summary text.  ''\<rparr>\<rparr>],
          Error = None\<rparr>\<close>
  by (simp add: json_eval)

lemma TrimSpace_summary: "TrimSpace ''  Summary text.  '' = ''Summary text.''"
  by (simp add: trim_eval)

theorem summary_is_trimmed_content_witness:
  \<open>fst (SummarizePlans
      (simulated [openRouterAPIKeyEnv \<mapsto> ''k'']
         (Inr \<lparr>StatusCode = 200,
               ReadAll = Inr ''{"choices":[{"message":{"role":"assistant","content":"  Summary text.  "}}]}''\<rparr>))
      [''planA'']) = ''Summary text.''\<close>
proof -
  let ?b = \<open>''{"choices":[{"message":{"role":"assistant","content":"  Summary text.  "}}]}''\<close>
  let ?w = "simulated [openRouterAPIKeyEnv \<mapsto> ''k''] (Inr \<lparr>StatusCode = 200, ReadAll = Inr ?b\<rparr>)"
  let ?req = "builtRequest ''k''
    (''anthropic/claude-sonnet-4.5|system:'' @ defaultSystemPrompt @ ''|user:planA'')"
  have r: "?req \<in> set (requests (snd (SummarizePlans ?w [''planA''])))"
    by (simp only: simulated_request list.set insertI1)
  have d: "client_Do ?w openRouterTimeout ?req = Inr \<lparr>StatusCode = 200, ReadAll = Inr ?b\<rparr>"
    by (simp only: simulated_simps)
  from summary_is_trimmed_content [OF r d _ _ Unmarshal_summary]
  show ?thesis by (simp add: TrimSpace_summary)
qed


end
